theory Spec2Isabelle
  imports Complex_Main "HOL-Library.AList" "HOL-Library.Multiset"
begin

section \<open>purge-gcloud-app: retention of deployed App Engine versions\<close>

text \<open>
  The development embeds \<^verbatim>\<open>index.js\<close>: the three functions \<^verbatim>\<open>fetchVersions\<close>,
  \<^verbatim>\<open>deleteVersions\<close> and \<^verbatim>\<open>purgeOldVersionsFor\<close>. The \<^verbatim>\<open>gcloud\<close> child process,
  the clock and the host's time zone are the environment; arrays that the code mutates
  live in an explicit store; every \<^verbatim>\<open>throw\<close> is a value of type \<open>error\<close>.
\<close>

subsection \<open>Values, errors and the environment\<close>

text \<open>The JavaScript values that reach \<^verbatim>\<open>gcloud\<close>'s argument vector or are tested with
  \<^verbatim>\<open>typeof\<close>.\<close>

datatype js_value = Str string | Num int | Null | Undefined

text \<open>One constructor per \<^verbatim>\<open>throw\<close> of the source and per runtime TypeError / SyntaxError
  that its statements can raise; the interpolated value is the constructor's argument.\<close>

datatype error =
    CouldNotList "int option"     \<comment> \<open>\<^verbatim>\<open>Error(`could not list versions: ${status}`)\<close>\<close>
  | BadVersion js_value          \<comment> \<open>\<^verbatim>\<open>Error(`bad version: ${version}`)\<close>\<close>
  | DeletedWithError nat         \<comment> \<open>\<^verbatim>\<open>Error(`Deleted ${count} versions with error`)\<close>\<close>
  | LogIsNotAFunction            \<comment> \<open>TypeError: calling \<^verbatim>\<open>log\<close> when it is \<^verbatim>\<open>undefined\<close>\<close>
  | NotAnArray                   \<comment> \<open>TypeError: \<^verbatim>\<open>forEach\<close> or \<^verbatim>\<open>slice\<close> of a value that is no array\<close>
  | NotIterable                  \<comment> \<open>TypeError: \<^verbatim>\<open>for (const v of versions)\<close> on a value that is not iterable\<close>
  | WriteOfNull                  \<comment> \<open>TypeError: \<^verbatim>\<open>process.stderr.write(null)\<close>\<close>
  | CannotDestructure            \<comment> \<open>TypeError: destructuring \<^verbatim>\<open>null\<close> or \<^verbatim>\<open>undefined\<close>\<close>
  | JSONSyntaxError              \<comment> \<open>SyntaxError of \<^verbatim>\<open>JSON.parse\<close>\<close>

text \<open>A version as \<^verbatim>\<open>gcloud app versions list --format=json\<close> reports it.
  \<open>last_deployed_time\<close> is the time value (milliseconds since the epoch, UTC) of
  \<^verbatim>\<open>new Date(v.last_deployed_time.datetime)\<close>; \<open>diskUsageBytes\<close> is
  \<^verbatim>\<open>parseInt(v.version.diskUsageBytes)\<close>, \<open>None\<close> for NaN.\<close>

record version =
  v_id :: string
  v_project :: string
  v_service :: string
  traffic_split :: real
  diskUsageBytes :: "int option"
  last_deployed_time :: int

text \<open>The object pushed on \<^verbatim>\<open>candidates\<close>.\<close>

record candidate =
  c_id :: string
  usage :: int
  lastDeployed :: int

text \<open>A log sink is a function value; only its identity matters here.\<close>

datatype sink = ConsoleInfo | UserLog string

text \<open>\<^verbatim>\<open>PurgeOptions\<close>: an absent property is \<open>None\<close>.\<close>

record purge_options =
  project :: string
  service :: "string option"
  keepMinimum :: "nat option"
  keepDailyAmount :: "nat option"
  log_fn :: "sink option"

text \<open>The lines the code passes to \<^verbatim>\<open>log\<close>. The elapsed time \<^verbatim>\<open>since\<close> stands for
  \<^verbatim>\<open>`deployed ${prettyMs(since)} ago`\<close>.\<close>

datatype log_line =
    KeepingFor string string int       \<comment> \<open>\<^verbatim>\<open>`Keeping for ${key}: ${id} (...)`\<close>\<close>
  | KeepingForRecent nat string int    \<comment> \<open>\<^verbatim>\<open>`Keeping for recent ${n}: ${id} (...)`\<close>\<close>
  | Deleting string int                \<comment> \<open>\<^verbatim>\<open>`Deleting ${id} ...`\<close>\<close>
  | EnactingDeletion "js_value list"   \<comment> \<open>\<^verbatim>\<open>`Enacting deletion for versions: ${next.join(' ')}`\<close>\<close>
  | CouldNotDelete "int option"        \<comment> \<open>\<^verbatim>\<open>`Could not delete versions: ${status}`\<close>\<close>

text \<open>What \<^verbatim>\<open>JSON.parse(stdout)\<close> yields: an array of versions, a string, or a value that
  is not iterable (a number, a boolean, \<^verbatim>\<open>null\<close>, an object).\<close>

datatype json = JVersions "version list" | JString string | JOther

text \<open>The result of \<^verbatim>\<open>childProcess.spawnSync\<close>: \<open>status\<close> is \<open>None\<close> for \<^verbatim>\<open>null\<close>
  (the child was killed, as on a timeout, or could not be spawned); \<open>stdout\<close> is
  \<^verbatim>\<open>JSON.parse(stdout)\<close>, \<open>None\<close> when parsing throws; \<open>stderr\<close> is what the child wrote on
  its standard error, \<open>None\<close> for \<^verbatim>\<open>null\<close> (the child could not be spawned).\<close>

record spawn_result =
  status :: "int option"
  stdout :: "json option"
  stderr :: "string option"

text \<open>The environment of a run: the clock read by \<^verbatim>\<open>new Date()\<close>, the host's offset
  from UTC (ECMAScript's LocalTZA: the flag says whether the argument is a UTC time value),
  and what the \<open>n\<close>-th \<^verbatim>\<open>gcloud\<close> child process of the run answers.\<close>

record env =
  clock :: int
  localTZA :: "int \<Rightarrow> bool \<Rightarrow> int"
  gcloud :: "nat \<Rightarrow> spawn_result"

text \<open>The mutable world: the store of arrays (an address is an index), the argument vectors
  of the child processes spawned so far, and the lines logged so far with their sink.\<close>

record world =
  arrays :: "js_value list list"
  spawned :: "js_value list list"
  logged :: "(sink \<times> log_line) list"

subsection \<open>Dates\<close>

definition msPerDay :: int where
  "msPerDay = 86400000"

text \<open>Year, month and day of month of a day number (days since 1970-01-01) in the proleptic
  Gregorian calendar, as ECMAScript's YearFromTime, MonthFromTime and DateFromTime give them.\<close>

definition civil :: "int \<Rightarrow> int \<times> int \<times> int" where
  "civil days =
     (let z = days + 719468;
          era = z div 146097;
          doe = z mod 146097;
          yoe = (doe - doe div 1460 + doe div 36524 - doe div 146096) div 365;
          doy = doe - (365 * yoe + yoe div 4 - yoe div 100);
          mp = (5 * doy + 2) div 153;
          d = doy - (153 * mp + 2) div 5 + 1;
          m = (if mp < 10 then mp + 3 else mp - 9);
          y = yoe + era * 400
      in (if m \<le> 2 then y + 1 else y, m, d))"

fun digits :: "nat \<Rightarrow> nat \<Rightarrow> string" where
  "digits 0 n = []"
| "digits (Suc w) n = digits w (n div 10) @ [''0123456789'' ! (n mod 10)]"

text \<open>\<^verbatim>\<open>toISOString().substr(0, 10)\<close>. A year from 0 to 9999 prints as four digits, so
  the ten characters are \<^verbatim>\<open>YYYY-MM-DD\<close>; any other year prints as a sign and six digits,
  and the ten characters end within the month.\<close>

definition dayKey :: "int \<Rightarrow> string" where
  "dayKey t =
     (case civil (t div msPerDay) of (y, m, d) \<Rightarrow>
        take 10
          ((if 0 \<le> y \<and> y \<le> 9999 then digits 4 (nat y)
            else (if y < 0 then ''-'' else ''+'') @ digits 6 (nat \<bar>y\<bar>))
           @ ''-'' @ digits 2 (nat m) @ ''-'' @ digits 2 (nat d)))"

text \<open>\<^verbatim>\<open>const d = new Date(now); d.setDate(d.getDate() - i)\<close>. \<^verbatim>\<open>setDate\<close> works on local
  time: it keeps the local time within the day and moves the local day number, here by
  \<open>i\<close> days back, and converts the result to UTC.\<close>

definition daysAgo :: "env \<Rightarrow> int \<Rightarrow> nat \<Rightarrow> int" where
  "daysAgo e now i =
     (let t = now + localTZA e now True;
          newDate = t - int i * msPerDay
      in newDate - localTZA e newDate False)"

subsection \<open>Classification (the body of purgeOldVersionsFor up to the filter)\<close>

text \<open>The loop over \<^verbatim>\<open>versions\<close>: skip a version of another project or service or one
  that serves traffic, push a candidate otherwise.\<close>

definition unexpected :: "string \<Rightarrow> string \<Rightarrow> version \<Rightarrow> bool" where
  "unexpected p s v \<longleftrightarrow> v_project v \<noteq> p \<or> v_service v \<noteq> s \<or> traffic_split v \<noteq> 0"

definition candidateOf :: "version \<Rightarrow> candidate" where
  "candidateOf v =
     \<lparr>c_id = v_id v,
      usage = (case diskUsageBytes v of None \<Rightarrow> 0 | Some n \<Rightarrow> n),
      lastDeployed = last_deployed_time v\<rparr>"

fun collect :: "string \<Rightarrow> string \<Rightarrow> version list \<Rightarrow> candidate list \<Rightarrow> candidate list" where
  "collect p s [] candidates = candidates"
| "collect p s (v # versions) candidates =
     (if unexpected p s v then collect p s versions candidates
      else collect p s versions (candidates @ [candidateOf v]))"

text \<open>\<^verbatim>\<open>candidates.sort(({lastDeployed: a}, {lastDeployed: b}) => b - a)\<close>: most recent first;
  the sort is stable.\<close>

definition sortRecentFirst :: "candidate list \<Rightarrow> candidate list" where
  "sortRecentFirst candidates = sort_key (\<lambda>c. - lastDeployed c) candidates"

text \<open>The \<^verbatim>\<open>Map\<close> \<^verbatim>\<open>versionsForDays\<close>, in insertion order; the value \<open>None\<close> is \<^verbatim>\<open>null\<close>.\<close>

type_synonym day_map = "(string \<times> string option) list"

definition trackDays :: "env \<Rightarrow> int \<Rightarrow> nat \<Rightarrow> day_map" where
  "trackDays e now n =
     foldl (\<lambda>m i. AList.update (dayKey (daysAgo e now i)) None m) [] [0..<n]"

text \<open>The state the filter callback closes over.\<close>

record keeping =
  versionsForDays :: day_map
  keptRecentVersions :: "string list"
  lines :: "log_line list"

text \<open>The callback of \<^verbatim>\<open>candidates.filter\<close>: \<open>True\<close> leaves the candidate in the array.\<close>

definition keepOrDelete :: "int \<Rightarrow> nat \<Rightarrow> candidate \<Rightarrow> keeping \<Rightarrow> bool \<times> keeping" where
  "keepOrDelete now keepMin c k =
     (let since = now - lastDeployed c;
          key = dayKey (lastDeployed c)
      in if map_of (versionsForDays k) key = Some None then
           (False, k\<lparr>versionsForDays := AList.update key (Some (c_id c)) (versionsForDays k),
                     lines := lines k @ [KeepingFor key (c_id c) since]\<rparr>)
         else if length (keptRecentVersions k) < keepMin then
           (False, k\<lparr>keptRecentVersions := keptRecentVersions k @ [c_id c],
                     lines := lines k @
                       [KeepingForRecent (length (keptRecentVersions k) + 1) (c_id c) since]\<rparr>)
         else (True, k\<lparr>lines := lines k @ [Deleting (c_id c) since]\<rparr>))"

fun filterCandidates ::
  "int \<Rightarrow> nat \<Rightarrow> candidate list \<Rightarrow> keeping \<Rightarrow> candidate list \<times> keeping" where
  "filterCandidates now keepMin [] k = ([], k)"
| "filterCandidates now keepMin (c # cs) k =
     (case keepOrDelete now keepMin c k of
        (True, k') \<Rightarrow>
          (case filterCandidates now keepMin cs k' of (ds, k'') \<Rightarrow> (c # ds, k''))
      | (False, k') \<Rightarrow> filterCandidates now keepMin cs k')"

text \<open>Lines 127 to 184 in one piece: from the listed versions to the candidates left for
  deletion and the final \<^verbatim>\<open>versionsForDays\<close> and \<^verbatim>\<open>keptRecentVersions\<close>.\<close>

definition startKeeping :: "env \<Rightarrow> int \<Rightarrow> nat \<Rightarrow> keeping" where
  "startKeeping e now keepDaily =
     \<lparr>versionsForDays = trackDays e now keepDaily, keptRecentVersions = [], lines = []\<rparr>"

definition classify ::
  "env \<Rightarrow> int \<Rightarrow> string \<Rightarrow> string \<Rightarrow> nat \<Rightarrow> nat \<Rightarrow> version list \<Rightarrow> candidate list \<times> keeping" where
  "classify e now p s keepDaily keepMin versions =
     filterCandidates now keepMin (sortRecentFirst (collect p s versions []))
       (startKeeping e now keepDaily)"

text \<open>What the final state says was kept: the ids stored in \<^verbatim>\<open>versionsForDays\<close> (kept by
  the day rule) and the ids pushed on \<^verbatim>\<open>keptRecentVersions\<close> (kept by the recency rule).\<close>

definition keptForDays :: "keeping \<Rightarrow> string list" where
  "keptForDays k = List.map_filter snd (versionsForDays k)"

definition kept :: "keeping \<Rightarrow> string list" where
  "kept k = keptForDays k @ keptRecentVersions k"

text \<open>The ids the log reports as kept for the day \<open>key\<close>, in the order of the lines.\<close>

fun keptFor :: "string \<Rightarrow> log_line list \<Rightarrow> string list" where
  "keptFor key [] = []"
| "keptFor key (KeepingFor key' i since # ls) =
     (if key' = key then i # keptFor key ls else keptFor key ls)"
| "keptFor key (l # ls) = keptFor key ls"

text \<open>The candidates that the day rule passes on to the recency rule: the filter's first
  test alone, on the same \<^verbatim>\<open>versionsForDays\<close>.\<close>

fun passedOn :: "day_map \<Rightarrow> candidate list \<Rightarrow> candidate list" where
  "passedOn m [] = []"
| "passedOn m (c # cs) =
     (if map_of m (dayKey (lastDeployed c)) = Some None
      then passedOn (AList.update (dayKey (lastDeployed c)) (Some (c_id c)) m) cs
      else c # passedOn m cs)"

subsection \<open>Calls into the environment\<close>

text \<open>\<^verbatim>\<open>log(line)\<close>: a TypeError when \<^verbatim>\<open>log\<close> is \<^verbatim>\<open>undefined\<close>.\<close>

definition call_log :: "sink option \<Rightarrow> log_line \<Rightarrow> world \<Rightarrow> (error + unit) \<times> world" where
  "call_log l line w =
     (case l of
        None \<Rightarrow> (Inl LogIsNotAFunction, w)
      | Some f \<Rightarrow> (Inr (), w\<lparr>logged := logged w @ [(f, line)]\<rparr>))"

text \<open>\<^verbatim>\<open>childProcess.spawnSync('gcloud', args, ...)\<close>: the call is recorded and the
  environment answers.\<close>

definition spawnSync :: "env \<Rightarrow> js_value list \<Rightarrow> world \<Rightarrow> spawn_result \<times> world" where
  "spawnSync e args w = (gcloud e (length (spawned w)), w\<lparr>spawned := spawned w @ [args]\<rparr>)"

text \<open>What a function receives as its \<^verbatim>\<open>options\<close> argument: a \<^verbatim>\<open>PurgeOptions\<close> object or
  a primitive value. \<^verbatim>\<open>const {log, project, service} = options\<close> reads the three properties;
  a string has none of them, and \<^verbatim>\<open>null\<close> and \<^verbatim>\<open>undefined\<close> cannot be destructured.\<close>

datatype options_arg = Options purge_options | Primitive js_value

definition destructure :: "options_arg \<Rightarrow> error + (sink option \<times> js_value \<times> js_value)" where
  "destructure options =
     (case options of
        Options opts \<Rightarrow>
          Inr (log_fn opts, Str (project opts),
               (case service opts of None \<Rightarrow> Undefined | Some s \<Rightarrow> Str s))
      | Primitive Null \<Rightarrow> Inl CannotDestructure
      | Primitive Undefined \<Rightarrow> Inl CannotDestructure
      | Primitive _ \<Rightarrow> Inr (None, Undefined, Undefined))"

subsection \<open>fetchVersions\<close>

definition fetchVersions :: "env \<Rightarrow> options_arg \<Rightarrow> world \<Rightarrow> (error + json) \<times> world" where
  "fetchVersions e options w =
     (case destructure options of
        Inl err \<Rightarrow> (Inl err, w)
      | Inr (l, p, s) \<Rightarrow>
          (case spawnSync e
                  [Str ''app'', Str ''--project'', p, Str ''versions'', Str ''list'',
                   Str ''--service'', s, Str (''--format='' @ [CHR 0x22] @ ''json'' @ [CHR 0x22])] w of
             (r, w') \<Rightarrow>
               if status r \<noteq> Some 0 then (Inl (CouldNotList (status r)), w')
               else (case stdout r of
                       None \<Rightarrow> (Inl JSONSyntaxError, w')
                     | Some j \<Rightarrow> (Inr j, w'))))"

subsection \<open>deleteVersions\<close>

definition deleteAtMost :: nat where
  "deleteAtMost = 4"

text \<open>The test of the \<^verbatim>\<open>forEach\<close> callback: not a string, or starts with \<^verbatim>\<open>-\<close>, or
  includes a backslash.\<close>

definition badVersion :: "js_value \<Rightarrow> bool" where
  "badVersion version =
     (case version of
        Str s \<Rightarrow> take 1 s = ''-'' \<or> CHR 0x5C \<in> set s
      | _ \<Rightarrow> True)"

fun checkVersions :: "js_value list \<Rightarrow> error + unit" where
  "checkVersions [] = Inr ()"
| "checkVersions (version # versions) =
     (if badVersion version then Inl (BadVersion version) else checkVersions versions)"

text \<open>\<^verbatim>\<open>versions.slice()\<close> allocates a copy; \<^verbatim>\<open>versions.splice(0, n)\<close> removes the first
  \<open>n\<close> elements from the array in place and returns them.\<close>

definition slice :: "nat \<Rightarrow> world \<Rightarrow> nat \<times> world" where
  "slice a w = (length (arrays w), w\<lparr>arrays := arrays w @ [arrays w ! a]\<rparr>)"

definition splice0 :: "nat \<Rightarrow> nat \<Rightarrow> world \<Rightarrow> js_value list \<times> world" where
  "splice0 a n w =
     (take n (arrays w ! a), w\<lparr>arrays := (arrays w)[a := drop n (arrays w ! a)]\<rparr>)"

definition deleteArgs :: "js_value \<Rightarrow> js_value list \<Rightarrow> js_value \<Rightarrow> js_value list" where
  "deleteArgs p next s =
     [Str ''app'', Str ''--project'', p, Str ''versions'', Str ''delete''] @ next @
     [Str ''--service'', s, Str (''--format='' @ [CHR 0x22] @ ''json'' @ [CHR 0x22])]"

text \<open>The \<^verbatim>\<open>while (versions.length)\<close> loop; \<open>versions\<close> is the address of the copy.
  \<^verbatim>\<open>process.stderr.write(stderr)\<close> comes before the test of the status and throws when
  \<^verbatim>\<open>stderr\<close> is \<^verbatim>\<open>null\<close>. What the process itself prints on its standard error and, with
  \<^verbatim>\<open>console.info\<close>, on its standard output is not recorded in the world.\<close>

function deleteLoop ::
  "env \<Rightarrow> sink option \<Rightarrow> js_value \<Rightarrow> js_value \<Rightarrow> nat \<Rightarrow> nat \<Rightarrow> world \<Rightarrow> (error + nat) \<times> world" where
  "deleteLoop e l p s versions done w =
     (if \<not> versions < length (arrays w) then (Inl NotAnArray, w)
      else if length (arrays w ! versions) = 0 then (Inr done, w)
      else
        (case splice0 versions deleteAtMost w of
           (next, w1) \<Rightarrow>
             (case call_log l (EnactingDeletion next) w1 of
                (Inl err, w2) \<Rightarrow> (Inl err, w2)
              | (Inr u, w2) \<Rightarrow>
                  (case spawnSync e (deleteArgs p next s) w2 of
                     (r, w3) \<Rightarrow>
                       (case stderr r of
                          None \<Rightarrow> (Inl WriteOfNull, w3)
                        | Some written \<Rightarrow>
                            if status r \<noteq> Some 0 then
                              (case call_log l (CouldNotDelete (status r)) w3 of
                                 (Inl err, w4) \<Rightarrow> (Inl err, w4)
                               | (Inr u', w4) \<Rightarrow> (Inr done, w4))
                            else
                              (case stdout r of
                                 None \<Rightarrow> (Inl JSONSyntaxError, w3)
                               | Some j \<Rightarrow>
                                   deleteLoop e l p s versions (done + length next) w3))))))"
  by pat_completeness auto
termination
  by (relation "measure (\<lambda>(e, l, p, s, versions, done, w). length (arrays w ! versions))")
     (auto simp: splice0_def call_log_def spawnSync_def deleteAtMost_def split: option.splits)

declare deleteLoop.simps [simp del]

definition deleteVersions :: "env \<Rightarrow> options_arg \<Rightarrow> nat \<Rightarrow> world \<Rightarrow> (error + nat) \<times> world" where
  "deleteVersions e options versions w =
     (case destructure options of
        Inl err \<Rightarrow> (Inl err, w)
      | Inr (l, p, s) \<Rightarrow>
          if \<not> versions < length (arrays w) then (Inl NotAnArray, w)
          else
            (case checkVersions (arrays w ! versions) of
               Inl err \<Rightarrow> (Inl err, w)
             | Inr u \<Rightarrow>
                 (case slice versions w of
                    (copy, w1) \<Rightarrow> deleteLoop e l p s copy 0 w1)))"

subsection \<open>purgeOldVersionsFor\<close>

definition keepMinimumDefault :: nat where
  "keepMinimumDefault = 20"

definition keepDailyAmountDefault :: nat where
  "keepDailyAmountDefault = 7"

text \<open>\<^verbatim>\<open>Object.assign({service: 'default', log: (s) => console.info(s)}, options)\<close>.\<close>

definition withDefaults :: "purge_options \<Rightarrow> purge_options" where
  "withDefaults options =
     options\<lparr>service := Some (case service options of None \<Rightarrow> ''default'' | Some s \<Rightarrow> s),
             log_fn := Some (case log_fn options of None \<Rightarrow> ConsoleInfo | Some f \<Rightarrow> f)\<rparr>"

text \<open>\<^verbatim>\<open>candidates.map(({id}) => id)\<close> allocates the array of ids.\<close>

definition alloc :: "js_value list \<Rightarrow> world \<Rightarrow> nat \<times> world" where
  "alloc xs w = (length (arrays w), w\<lparr>arrays := arrays w @ [xs]\<rparr>)"

text \<open>The loop \<^verbatim>\<open>for (const v of versions)\<close> over what \<^verbatim>\<open>fetchVersions\<close> returned. Over an
  array it visits the versions. Over a string it visits the characters, and skips each of
  them: a character has no property \<^verbatim>\<open>project\<close>, so \<^verbatim>\<open>v.project !== project\<close> holds; a string
  therefore contributes no version. Any other value is not iterable.\<close>

definition listedVersions :: "json \<Rightarrow> error + version list" where
  "listedVersions j =
     (case j of
        JVersions versions \<Rightarrow> Inr versions
      | JString t \<Rightarrow> Inr []
      | JOther \<Rightarrow> Inl NotIterable)"

text \<open>The end of the function, from the value of the call of \<^verbatim>\<open>deleteVersions\<close> on:
  \<^verbatim>\<open>if (candidates.length && count === 0) throw new Error(...)\<close>, and no \<^verbatim>\<open>return\<close>
  after it, so a run that does not throw yields \<^verbatim>\<open>undefined\<close>.\<close>

definition afterDeleting ::
  "candidate list \<Rightarrow> (error + nat) \<times> world \<Rightarrow> (error + js_value) \<times> world" where
  "afterDeleting candidates outcome =
     (case outcome of
        (Inl err, w) \<Rightarrow> (Inl err, w)
      | (Inr cnt, w) \<Rightarrow>
          if length candidates \<noteq> 0 \<and> cnt = 0
          then (Inl (DeletedWithError cnt), w)
          else (Inr Undefined, w))"

text \<open>The exported function. It passes the string \<^verbatim>\<open>project\<close> where \<^verbatim>\<open>fetchVersions\<close> and
  \<^verbatim>\<open>deleteVersions\<close> declare \<^verbatim>\<open>options\<close> (the third argument of the call of
  \<^verbatim>\<open>deleteVersions\<close>, \<^verbatim>\<open>service\<close>, has no parameter to bind to), and its body ends without a
  \<^verbatim>\<open>return\<close>, so a run that does not throw yields \<^verbatim>\<open>undefined\<close>.\<close>

definition purgeOldVersionsFor :: "env \<Rightarrow> purge_options \<Rightarrow> world \<Rightarrow> (error + js_value) \<times> world" where
  "purgeOldVersionsFor e options0 w =
     (let now = clock e;
          options = withDefaults options0;
          l = (case log_fn options of None \<Rightarrow> ConsoleInfo | Some f \<Rightarrow> f);
          p = project options;
          s = (case service options of None \<Rightarrow> ''default'' | Some s \<Rightarrow> s)
      in case fetchVersions e (Primitive (Str p)) w of
           (Inl err, w1) \<Rightarrow> (Inl err, w1)
         | (Inr j, w1) \<Rightarrow>
             (case listedVersions j of
                Inl err \<Rightarrow> (Inl err, w1)
              | Inr versions \<Rightarrow>
                  (case classify e now p s
                          (case keepDailyAmount options of
                             None \<Rightarrow> keepDailyAmountDefault | Some n \<Rightarrow> n)
                          (case keepMinimum options of
                             None \<Rightarrow> keepMinimumDefault | Some n \<Rightarrow> n)
                          versions of
                     (candidates, k) \<Rightarrow>
                       (case alloc (map (\<lambda>c. Str (c_id c)) candidates)
                               (w1\<lparr>logged := logged w1 @ map (Pair l) (lines k)\<rparr>) of
                          (ids, w2) \<Rightarrow>
                            afterDeleting candidates
                              (deleteVersions e (Primitive (Str p)) ids w2)))))"

subsection \<open>Notions used in the statements\<close>

text \<open>A listed version is in scope when it belongs to the project and the service and
  gets no traffic.\<close>

definition inScope :: "string \<Rightarrow> string \<Rightarrow> version \<Rightarrow> bool" where
  "inScope p s v \<longleftrightarrow> v_project v = p \<and> v_service v = s \<and> traffic_split v = 0"

text \<open>A child process has succeeded when it ran, exited with status 0 and printed JSON. It
  has failed when it ran and did not exit with status 0 (a child that was killed, as on a
  timeout, has status \<^verbatim>\<open>null\<close>).\<close>

definition succeeded :: "spawn_result \<Rightarrow> bool" where
  "succeeded r \<longleftrightarrow> status r = Some 0 \<and> stdout r \<noteq> None \<and> stderr r \<noteq> None"

definition failed :: "spawn_result \<Rightarrow> bool" where
  "failed r \<longleftrightarrow> status r \<noteq> Some 0 \<and> stderr r \<noteq> None"

text \<open>The argument vector of the \<open>i\<close>-th delete call for the ids \<open>ids\<close>, counting from 0:
  \<^verbatim>\<open>gcloud app --project <project> versions delete <ids> --service <service> --format="json"\<close>
  with the ids at the positions from \<open>4 i\<close> up to, not including, \<open>4 i + 4\<close>.\<close>

definition expectedDeleteCall :: "purge_options \<Rightarrow> js_value list \<Rightarrow> nat \<Rightarrow> js_value list" where
  "expectedDeleteCall opts ids i =
     [Str ''app'', Str ''--project'', Str (project opts), Str ''versions'', Str ''delete''] @
     take 4 (drop (4 * i) ids) @
     [Str ''--service'', (case service opts of None \<Rightarrow> Undefined | Some t \<Rightarrow> Str t),
      Str (''--format='' @ [CHR 0x22] @ ''json'' @ [CHR 0x22])]"


text \<open>The argument vector of the listing call as \<^verbatim>\<open>purgeOldVersionsFor\<close> issues it.\<close>

definition listCall :: "js_value list" where
  "listCall =
     [Str ''app'', Str ''--project'', Undefined, Str ''versions'', Str ''list'',
      Str ''--service'', Undefined, Str (''--format='' @ [CHR 0x22] @ ''json'' @ [CHR 0x22])]"

text \<open>The number of chunks of at most \<open>deleteAtMost\<close> ids in a list of \<open>n\<close> ids.\<close>

definition batches :: "nat \<Rightarrow> nat" where
  "batches n = (n + deleteAtMost - 1) div deleteAtMost"

text \<open>The world after one chunk of the array at \<open>a\<close> has been spliced off, announced
  on \<open>f\<close> and sent to \<^verbatim>\<open>gcloud\<close>.\<close>

definition sent :: "sink \<Rightarrow> js_value \<Rightarrow> js_value \<Rightarrow> nat \<Rightarrow> world \<Rightarrow> world" where
  "sent f p s a w =
     w\<lparr>arrays := (arrays w)[a := drop deleteAtMost (arrays w ! a)],
       logged := logged w @ [(f, EnactingDeletion (take deleteAtMost (arrays w ! a)))],
       spawned := spawned w @ [deleteArgs p (take deleteAtMost (arrays w ! a)) s]\<rparr>"

subsection \<open>A concrete run\<close>

text \<open>A host on UTC whose clock reads 2020-09-13T18:00:00Z.\<close>

definition utcHost :: "(nat \<Rightarrow> spawn_result) \<Rightarrow> env" where
  "utcHost answers = \<lparr>clock = 1600020000000, localTZA = (\<lambda>t isUTC. 0), gcloud = answers\<rparr>"

definition deployed :: "string \<Rightarrow> string \<Rightarrow> real \<Rightarrow> int \<Rightarrow> version" where
  "deployed i s split t =
     \<lparr>v_id = i, v_project = ''p'', v_service = s, traffic_split = split,
      diskUsageBytes = None, last_deployed_time = t\<rparr>"

text \<open>Three versions deployed on 2020-09-13 at 09:00, 15:00 and 12:00, one on 2020-09-10 and
  one on 2020-09-01, all without traffic; one version serving traffic; one of another
  service.\<close>

definition listing :: "version list" where
  "listing =
     [deployed ''v09'' ''default'' 0 1599987600000,
      deployed ''live'' ''default'' 1 1600016400000,
      deployed ''v15'' ''default'' 0 1600009200000,
      deployed ''old10'' ''default'' 0 1599739200000,
      deployed ''api1'' ''api'' 0 1600009200000,
      deployed ''v12'' ''default'' 0 1599998400000,
      deployed ''old01'' ''default'' 0 1598961600000]"

text \<open>Results of a child process: it exits with status 0 and prints JSON; it exits with
  status 1 and prints an error message; it exits with status 0 and prints nothing, which
  is not JSON; it could not be spawned.\<close>

definition done_ok :: spawn_result where
  "done_ok = \<lparr>status = Some 0, stdout = Some JOther, stderr = Some []\<rparr>"

definition exit_1 :: spawn_result where
  "exit_1 = \<lparr>status = Some 1, stdout = None, stderr = Some ''ERROR''\<rparr>"

definition exit_0_no_json :: spawn_result where
  "exit_0_no_json = \<lparr>status = Some 0, stdout = None, stderr = Some []\<rparr>"

definition not_spawned :: spawn_result where
  "not_spawned = \<lparr>status = None, stdout = None, stderr = None\<rparr>"

definition listed_ok :: "version list \<Rightarrow> spawn_result" where
  "listed_ok versions = \<lparr>status = Some 0, stdout = Some (JVersions versions), stderr = Some []\<rparr>"

text \<open>Answers of \<^verbatim>\<open>gcloud\<close>: every call succeeds; the third call fails; every call exits
  with status 0 without JSON; no call can be spawned; the first call lists \<open>listing\<close> and
  every later call succeeds; the same with the third call failing.\<close>

definition allSucceed :: "nat \<Rightarrow> spawn_result" where
  "allSucceed n = done_ok"

definition thirdFails :: "nat \<Rightarrow> spawn_result" where
  "thirdFails n = (if n = 2 then exit_1 else done_ok)"

definition noJson :: "nat \<Rightarrow> spawn_result" where
  "noJson n = exit_0_no_json"

definition noGcloud :: "nat \<Rightarrow> spawn_result" where
  "noGcloud n = not_spawned"

definition listed :: "nat \<Rightarrow> spawn_result" where
  "listed n = (if n = 0 then listed_ok listing else done_ok)"


definition nineIds :: "js_value list" where
  "nineIds = map Str [''a1'', ''a2'', ''a3'', ''a4'', ''a5'', ''a6'', ''a7'', ''a8'', ''a9'']"

text \<open>The three delete calls for the nine ids under \<open>fullOptions\<close> (project \<^verbatim>\<open>p\<close>, service
  \<^verbatim>\<open>default\<close>).\<close>

definition nineIdsCalls :: "js_value list list" where
  "nineIdsCalls =
     [[Str ''app'', Str ''--project'', Str ''p'', Str ''versions'', Str ''delete'',
       Str ''a1'', Str ''a2'', Str ''a3'', Str ''a4'',
       Str ''--service'', Str ''default'', Str (''--format='' @ [CHR 0x22] @ ''json'' @ [CHR 0x22])],
      [Str ''app'', Str ''--project'', Str ''p'', Str ''versions'', Str ''delete'',
       Str ''a5'', Str ''a6'', Str ''a7'', Str ''a8'',
       Str ''--service'', Str ''default'', Str (''--format='' @ [CHR 0x22] @ ''json'' @ [CHR 0x22])],
      [Str ''app'', Str ''--project'', Str ''p'', Str ''versions'', Str ''delete'',
       Str ''a9'',
       Str ''--service'', Str ''default'', Str (''--format='' @ [CHR 0x22] @ ''json'' @ [CHR 0x22])]]"

definition onlyIds :: "js_value list \<Rightarrow> world" where
  "onlyIds ids = \<lparr>arrays = [ids], spawned = [], logged = []\<rparr>"

definition nothingYet :: world where
  "nothingYet = \<lparr>arrays = [], spawned = [], logged = []\<rparr>"

definition fullOptions :: purge_options where
  "fullOptions =
     \<lparr>project = ''p'', service = Some ''default'', keepMinimum = Some 1,
      keepDailyAmount = Some 1, log_fn = Some ConsoleInfo\<rparr>"

definition onlyProject :: purge_options where
  "onlyProject =
     \<lparr>project = ''p'', service = None, keepMinimum = None, keepDailyAmount = None,
      log_fn = None\<rparr>"


definition apiOptions :: purge_options where
  "apiOptions =
     \<lparr>project = ''p'', service = Some ''api'', keepMinimum = Some 0,
      keepDailyAmount = Some 0, log_fn = Some (UserLog ''audit'')\<rparr>"

definition cand :: "string \<Rightarrow> int \<Rightarrow> candidate" where
  "cand i t = \<lparr>c_id = i, usage = 0, lastDeployed = t\<rparr>"

text \<open>A host in the time zone America/New_York on the day daylight saving time ends:
  the offset from UTC is four hours until 2020-11-01T06:00:00Z (02:00 local time) and five
  hours from then on. Its clock reads 2020-11-02T00:30:00Z, which is 2020-11-01 19:30
  local time.\<close>

definition newYorkTZA :: "int \<Rightarrow> bool \<Rightarrow> int" where
  "newYorkTZA t isUTC =
     (if isUTC then (if t < 1604210400000 then - 14400000 else - 18000000)
      else (if t < 1604196000000 then - 14400000 else - 18000000))"

definition newYorkHost :: "(nat \<Rightarrow> spawn_result) \<Rightarrow> env" where
  "newYorkHost answers = \<lparr>clock = 1604277000000, localTZA = newYorkTZA, gcloud = answers\<rparr>"

text \<open>One version without traffic, deployed on 2020-11-01 at 12:00 UTC (07:00 local time).\<close>

definition novemberListing :: "version list" where
  "novemberListing = [deployed ''nov01'' ''default'' 0 1604232000000]"

section \<open>Classification\<close>

subsection \<open>Collecting and sorting\<close>

lemma unexpected_iff: "unexpected p s v \<longleftrightarrow> \<not> inScope p s v"
  by (auto simp: unexpected_def inScope_def)

lemma collect_eq: "collect p s vs acc = acc @ map candidateOf (filter (inScope p s) vs)"
  by (induction vs arbitrary: acc) (simp_all add: unexpected_iff)

lemma ids_collect: "map c_id (collect p s versions []) = map v_id (filter (inScope p s) versions)"
  by (simp add: collect_eq candidateOf_def comp_def)

lemma mset_sortRecentFirst: "mset (sortRecentFirst cs) = mset cs"
  by (simp add: sortRecentFirst_def)

lemma set_sortRecentFirst: "set (sortRecentFirst cs) = set cs"
  by (simp add: sortRecentFirst_def)

lemma sorted_sortRecentFirst: "sorted (map (\<lambda>c. - lastDeployed c) (sortRecentFirst cs))"
  by (simp add: sortRecentFirst_def)

lemma distinct_sortRecentFirst: "distinct (map c_id (sortRecentFirst cs)) = distinct (map c_id cs)"
proof -
  have "mset (map c_id (sortRecentFirst cs)) = mset (map c_id cs)"
    by (simp add: mset_sortRecentFirst)
  then show ?thesis by (rule mset_eq_imp_distinct_iff)
qed

lemma first_is_latest:
  assumes "sorted (map (\<lambda>c. - lastDeployed c) cs)" and "filter P cs = c # rest"
  shows "\<forall>c'\<in>set cs. P c' \<longrightarrow> lastDeployed c' \<le> lastDeployed c"
proof -
  have "sorted (map (\<lambda>c. - lastDeployed c) (filter P cs))"
    using assms(1) by (rule sorted_filter)
  then have "\<forall>c'\<in>set (c # rest). lastDeployed c' \<le> lastDeployed c"
    unfolding assms(2) by auto
  then show ?thesis unfolding assms(2)[symmetric] by auto
qed

subsection \<open>The tracked days\<close>

text \<open>On a host whose offset from UTC never changes, the \<open>i\<close>-th tracked instant is \<open>i\<close>
  times 24 hours before \<open>now\<close>, so the tracked keys are the UTC dates of \<open>keepDailyAmount\<close>
  consecutive days ending with the date of \<open>now\<close>.\<close>

lemma daysAgo_fixed_offset:
  "(\<And>t isUTC. localTZA e t isUTC = offset) \<Longrightarrow> daysAgo e now i = now - int i * msPerDay"
  by (simp add: daysAgo_def Let_def)

lemma trackDays_Suc:
  "trackDays e now (Suc n) = AList.update (dayKey (daysAgo e now n)) None (trackDays e now n)"
  by (simp add: trackDays_def)

lemma trackDays_map_of:
  "map_of (trackDays e now n) key =
     (if key \<in> (\<lambda>i. dayKey (daysAgo e now i)) ` {..<n} then Some None else None)"
proof (induction n)
  case 0
  then show ?case by (simp add: trackDays_def)
next
  case (Suc n)
  then show ?case
    by (auto simp: trackDays_Suc update_conv' lessThan_Suc)
qed

lemma trackDays_distinct: "distinct (map fst (trackDays e now n))"
  by (induction n) (simp_all add: trackDays_def distinct_update)

lemma map_filter_snd_empty:
  "(\<forall>key v. map_of m key = Some v \<longrightarrow> v = None) \<Longrightarrow> distinct (map fst m) \<Longrightarrow>
   List.map_filter snd m = []"
proof (induction m)
  case Nil
  then show ?case by (simp add: List.map_filter_simps)
next
  case (Cons a m)
  obtain k v where a: "a = (k, v)" by (cases a)
  from Cons.prems(1)[rule_format, of k v] a have v: "v = None" by simp
  have "\<forall>key v. map_of m key = Some v \<longrightarrow> v = None"
  proof (intro allI impI)
    fix key w assume m: "map_of m key = Some w"
    then have "key \<in> fst ` set m" by (metis domI dom_map_of_conv_image_fst)
    with Cons.prems(2) a have "key \<noteq> k" by auto
    with Cons.prems(1)[rule_format, of key w] m a show "w = None" by simp
  qed
  with Cons.IH Cons.prems(2) have "List.map_filter snd m = []" by simp
  with a v show ?case by (simp add: List.map_filter_simps)
qed

lemma startKeeping_simps:
  "versionsForDays (startKeeping e now n) = trackDays e now n"
  "keptRecentVersions (startKeeping e now n) = []"
  "lines (startKeeping e now n) = []"
  by (simp_all add: startKeeping_def)

lemma keptForDays_start: "keptForDays (startKeeping e now n) = []"
  unfolding keptForDays_def startKeeping_simps
  by (simp add: map_filter_snd_empty trackDays_map_of trackDays_distinct)

lemma kept_start: "kept (startKeeping e now n) = []"
  by (simp add: kept_def keptForDays_start startKeeping_simps)

subsection \<open>The filter: every candidate lands in exactly one place\<close>

lemma map_filter_update_null:
  "map_of m key = Some None \<Longrightarrow>
   mset (List.map_filter snd (AList.update key (Some i) m)) =
   add_mset i (mset (List.map_filter snd m))"
  by (induction m) (auto simp: List.map_filter_simps split: option.splits)

lemma keepOrDelete_mset:
  "keepOrDelete now km c k = (b, k') \<Longrightarrow>
   mset (kept k') + (if b then {#c_id c#} else {#}) = add_mset (c_id c) (mset (kept k))"
  by (auto simp: keepOrDelete_def Let_def kept_def keptForDays_def map_filter_update_null
      split: if_splits)

lemma filterCandidates_mset:
  "filterCandidates now km cs k = (ds, k') \<Longrightarrow>
   mset (kept k') + mset (map c_id ds) = mset (kept k) + mset (map c_id cs)"
proof (induction cs arbitrary: k ds k')
  case Nil
  then show ?case by simp
next
  case (Cons c cs)
  obtain b k1 where s: "keepOrDelete now km c k = (b, k1)"
    by (cases "keepOrDelete now km c k")
  obtain ds2 k2 where r: "filterCandidates now km cs k1 = (ds2, k2)"
    by (cases "filterCandidates now km cs k1")
  from Cons.IH[OF r] keepOrDelete_mset[OF s] Cons.prems s r show ?case
    by (cases b) auto
qed

lemma classify_mset:
  assumes "classify e now p s kd km versions = (ds, k)"
  shows "mset (kept k) + mset (map c_id ds) = mset (map v_id (filter (inScope p s) versions))"
proof -
  have "mset (kept k) + mset (map c_id ds) =
        mset (map c_id (sortRecentFirst (collect p s versions [])))"
    using filterCandidates_mset[OF assms[unfolded classify_def]] by (simp add: kept_start)
  also have "\<dots> = image_mset c_id (mset (sortRecentFirst (collect p s versions [])))"
    by simp
  also have "\<dots> = image_mset c_id (mset (collect p s versions []))"
    by (simp only: mset_sortRecentFirst)
  also have "\<dots> = mset (map c_id (collect p s versions []))" by simp
  finally show ?thesis by (simp only: ids_collect)
qed

text \<open>
  Claim C1. For every list of listed versions, every project, service, \<open>keepDailyAmount\<close>,
  \<open>keepMinimum\<close> and instant \<open>now\<close>, the ids kept (those stored in \<^verbatim>\<open>versionsForDays\<close> and
  those pushed on \<^verbatim>\<open>keptRecentVersions\<close>) and the ids of the candidates left for deletion
  together are exactly the ids of the versions of that project and service without traffic,
  each such version counted once (the multiset equation); a version out of scope or serving
  traffic contributes to neither. Where the ids of the versions in scope are pairwise
  distinct, as the ids of one service are, the two sets of ids are disjoint.
\<close>

theorem classification_partitions:
  "case classify e now p s keepDaily keepMin versions of
     (ds, k) \<Rightarrow>
       set (kept k) \<union> set (map c_id ds) = set (map v_id (filter (inScope p s) versions)) \<and>
       mset (kept k) + mset (map c_id ds) = mset (map v_id (filter (inScope p s) versions)) \<and>
       (distinct (map v_id (filter (inScope p s) versions)) \<longrightarrow>
          set (kept k) \<inter> set (map c_id ds) = {})"
proof -
  obtain ds k where c: "classify e now p s keepDaily keepMin versions = (ds, k)"
    by (cases "classify e now p s keepDaily keepMin versions")
  let ?ids = "map v_id (filter (inScope p s) versions)"
  have m: "mset (kept k @ map c_id ds) = mset ?ids" using classify_mset[OF c] by simp
  have "set (kept k @ map c_id ds) = set ?ids" using m by (rule mset_eq_setD)
  then have u: "set (kept k) \<union> set (map c_id ds) = set ?ids" by simp
  have d: "distinct ?ids \<Longrightarrow> distinct (kept k @ map c_id ds)"
    using m by (metis mset_eq_imp_distinct_iff)
  have i: "distinct ?ids \<Longrightarrow> set (kept k) \<inter> set (map c_id ds) = {}"
    using d by simp
  from u classify_mset[OF c] i show ?thesis by (simp add: c)
qed

subsection \<open>The day rule\<close>

lemma keptFor_append: "keptFor key (xs @ ys) = keptFor key xs @ keptFor key ys"
  by (induction key xs rule: keptFor.induct) simp_all

lemma filterCandidates_day:
  "filterCandidates now km cs k = (ds, k') \<Longrightarrow>
   keptFor key (lines k') =
     keptFor key (lines k) @
     (if map_of (versionsForDays k) key = Some None
      then map c_id (take 1 (filter (\<lambda>c. dayKey (lastDeployed c) = key) cs)) else []) \<and>
   map_of (versionsForDays k') key =
     (if map_of (versionsForDays k) key = Some None
      then (case filter (\<lambda>c. dayKey (lastDeployed c) = key) cs of
              [] \<Rightarrow> Some None | c # cs' \<Rightarrow> Some (Some (c_id c)))
      else map_of (versionsForDays k) key)"
proof (induction cs arbitrary: k ds k')
  case Nil
  then show ?case by simp
next
  case (Cons c cs)
  obtain b k1 where s: "keepOrDelete now km c k = (b, k1)"
    by (cases "keepOrDelete now km c k")
  obtain ds2 k2 where r: "filterCandidates now km cs k1 = (ds2, k2)"
    by (cases "filterCandidates now km cs k1")
  have k': "k' = k2" using Cons.prems s r by (cases b) auto
  note IH = Cons.IH[OF r, folded k']
  show ?case
  proof (cases "map_of (versionsForDays k) (dayKey (lastDeployed c)) = Some None")
    case True
    then have k1:
      "versionsForDays k1 =
         AList.update (dayKey (lastDeployed c)) (Some (c_id c)) (versionsForDays k)"
      "lines k1 = lines k @ [KeepingFor (dayKey (lastDeployed c)) (c_id c) (now - lastDeployed c)]"
      using s by (auto simp: keepOrDelete_def Let_def)
    show ?thesis using IH True
      by (cases "dayKey (lastDeployed c) = key") (auto simp: k1 keptFor_append update_conv')
  next
    case False
    then have k1: "versionsForDays k1 = versionsForDays k"
      "keptFor key (lines k1) = keptFor key (lines k)"
      using s by (auto simp: keepOrDelete_def Let_def keptFor_append split: if_splits)
    show ?thesis using IH False
      by (cases "dayKey (lastDeployed c) = key") (auto simp: k1)
  qed
qed

text \<open>
  Let \<open>key\<close> be one of the keys that the code stores in \<^verbatim>\<open>versionsForDays\<close>: the UTC date of
  \<open>now\<close> moved \<open>i\<close> local days back, \<open>i < keepDailyAmount\<close>. The log reports at most one
  version kept for that key. When some candidate (a version in scope without traffic) has
  that key, exactly one is kept for it: the bucket holds its id, and no candidate with that
  key was deployed later than it. Which calendar days the keys are depends on the host's
  time zone: see \<open>daysAgo_fixed_offset\<close> and the run on the New York host below.
\<close>

lemma one_survivor_per_tracked_key:
  assumes "i < keepDaily"
    and "classify e now p s keepDaily keepMin versions = (ds, k)"
  defines "key \<equiv> dayKey (daysAgo e now i)"
    and "cands \<equiv> collect p s versions []"
  shows "length (keptFor key (lines k)) \<le> 1 \<and>
         ((\<exists>c\<in>set cands. dayKey (lastDeployed c) = key) \<longrightarrow>
          (\<exists>c\<in>set cands. dayKey (lastDeployed c) = key \<and>
             keptFor key (lines k) = [c_id c] \<and>
             map_of (versionsForDays k) key = Some (Some (c_id c)) \<and>
             (\<forall>c'\<in>set cands. dayKey (lastDeployed c') = key \<longrightarrow>
                lastDeployed c' \<le> lastDeployed c)))"
proof -
  let ?sorted = "sortRecentFirst cands"
  let ?day = "filter (\<lambda>c. dayKey (lastDeployed c) = key) ?sorted"
  have tracked: "map_of (trackDays e now keepDaily) key = Some None"
    using assms(1) by (auto simp: trackDays_map_of key_def)
  from filterCandidates_day[OF assms(2)[unfolded classify_def], of key]
  have l: "keptFor key (lines k) = map c_id (take 1 ?day)"
    and m: "map_of (versionsForDays k) key =
              (case ?day of [] \<Rightarrow> Some None | c # cs' \<Rightarrow> Some (Some (c_id c)))"
    by (simp_all add: startKeeping_simps tracked cands_def)
  have le: "length (keptFor key (lines k)) \<le> 1" by (simp add: l)
  have "\<exists>c\<in>set cands. dayKey (lastDeployed c) = key \<and>
             keptFor key (lines k) = [c_id c] \<and>
             map_of (versionsForDays k) key = Some (Some (c_id c)) \<and>
             (\<forall>c'\<in>set cands. dayKey (lastDeployed c') = key \<longrightarrow>
                lastDeployed c' \<le> lastDeployed c)"
    if ex: "\<exists>c\<in>set cands. dayKey (lastDeployed c) = key"
  proof -
    from ex have "?day \<noteq> []" by (auto simp: filter_empty_conv set_sortRecentFirst)
    then obtain c rest where day: "?day = c # rest" by (cases ?day) auto
    then have "c \<in> set ?day" by simp
    then have c: "c \<in> set cands" "dayKey (lastDeployed c) = key"
      by (auto simp: set_sortRecentFirst)
    have "\<forall>c'\<in>set ?sorted. dayKey (lastDeployed c') = key \<longrightarrow>
            lastDeployed c' \<le> lastDeployed c"
      using first_is_latest[OF sorted_sortRecentFirst day] .
    then have mx: "\<forall>c'\<in>set cands. dayKey (lastDeployed c') = key \<longrightarrow>
                     lastDeployed c' \<le> lastDeployed c"
      by (simp add: set_sortRecentFirst)
    show ?thesis using c mx l m by (intro bexI[of _ c]) (simp_all add: day)
  qed
  with le show ?thesis by blast
qed

subsection \<open>The recency rule\<close>

lemma filterCandidates_recent:
  "filterCandidates now km cs k = (ds, k') \<Longrightarrow>
   keptRecentVersions k' =
     keptRecentVersions k @
     map c_id (take (km - length (keptRecentVersions k)) (passedOn (versionsForDays k) cs)) \<and>
   ds = drop (km - length (keptRecentVersions k)) (passedOn (versionsForDays k) cs)"
proof (induction cs arbitrary: k ds k')
  case Nil
  then show ?case by simp
next
  case (Cons c cs)
  obtain b k1 where s: "keepOrDelete now km c k = (b, k1)"
    by (cases "keepOrDelete now km c k")
  obtain ds2 k2 where r: "filterCandidates now km cs k1 = (ds2, k2)"
    by (cases "filterCandidates now km cs k1")
  have k': "k' = k2" and ds: "ds = (if b then c # ds2 else ds2)"
    using Cons.prems s r by (cases b; auto)+
  note IH = Cons.IH[OF r, folded k']
  consider (day) "map_of (versionsForDays k) (dayKey (lastDeployed c)) = Some None"
    | (recent) "map_of (versionsForDays k) (dayKey (lastDeployed c)) \<noteq> Some None"
        "length (keptRecentVersions k) < km"
    | (delete) "map_of (versionsForDays k) (dayKey (lastDeployed c)) \<noteq> Some None"
        "\<not> length (keptRecentVersions k) < km"
    by blast
  then show ?case
  proof cases
    case day
    then have "\<not> b"
      "versionsForDays k1 =
         AList.update (dayKey (lastDeployed c)) (Some (c_id c)) (versionsForDays k)"
      "keptRecentVersions k1 = keptRecentVersions k"
      using s by (auto simp: keepOrDelete_def Let_def)
    then show ?thesis using IH day ds by simp
  next
    case recent
    then have k1: "\<not> b" "versionsForDays k1 = versionsForDays k"
      "keptRecentVersions k1 = keptRecentVersions k @ [c_id c]"
      using s by (auto simp: keepOrDelete_def Let_def)
    from recent(2) obtain j where j: "km - length (keptRecentVersions k) = Suc j"
      by (cases "km - length (keptRecentVersions k)") auto
    then have j': "km - Suc (length (keptRecentVersions k)) = j" by simp
    show ?thesis using IH recent ds by (simp add: k1 j j')
  next
    case delete
    then have k1: "b" "versionsForDays k1 = versionsForDays k"
      "keptRecentVersions k1 = keptRecentVersions k"
      using s by (auto simp: keepOrDelete_def Let_def)
    from delete(2) have z: "km - length (keptRecentVersions k) = 0" by simp
    have "ds2 = passedOn (versionsForDays k) cs" using IH z k1 by simp
    then show ?thesis using IH delete ds k1 z by simp
  qed
qed

lemma keptForDays_step:
  assumes "keepOrDelete now km c k = (b, k1)"
  shows "if map_of (versionsForDays k) (dayKey (lastDeployed c)) = Some None
         then set (keptForDays k1) = insert (c_id c) (set (keptForDays k)) \<and>
              versionsForDays k1 =
                AList.update (dayKey (lastDeployed c)) (Some (c_id c)) (versionsForDays k)
         else keptForDays k1 = keptForDays k \<and> versionsForDays k1 = versionsForDays k"
proof (cases "map_of (versionsForDays k) (dayKey (lastDeployed c)) = Some None")
  case True
  with assms have v: "versionsForDays k1 =
      AList.update (dayKey (lastDeployed c)) (Some (c_id c)) (versionsForDays k)"
    by (auto simp: keepOrDelete_def Let_def)
  with map_filter_update_null[OF True, of "c_id c"]
  have "mset (keptForDays k1) = add_mset (c_id c) (mset (keptForDays k))"
    by (simp add: keptForDays_def)
  then have "set_mset (mset (keptForDays k1)) = set_mset (add_mset (c_id c) (mset (keptForDays k)))"
    by simp
  then show ?thesis using True v by simp
next
  case False
  with assms have "versionsForDays k1 = versionsForDays k"
    by (auto simp: keepOrDelete_def Let_def split: if_splits)
  then show ?thesis using False by (simp add: keptForDays_def)
qed

lemma keptForDays_grows:
  "filterCandidates now km cs k = (ds, k') \<Longrightarrow>
   set (keptForDays k) \<subseteq> set (keptForDays k') \<and>
   set (keptForDays k') \<subseteq> set (keptForDays k) \<union> c_id ` set cs"
proof (induction cs arbitrary: k ds k')
  case Nil
  then show ?case by simp
next
  case (Cons c cs)
  obtain b k1 where s: "keepOrDelete now km c k = (b, k1)"
    by (cases "keepOrDelete now km c k")
  obtain ds2 k2 where r: "filterCandidates now km cs k1 = (ds2, k2)"
    by (cases "filterCandidates now km cs k1")
  have k': "k' = k2" using Cons.prems s r by (cases b) auto
  note IH = Cons.IH[OF r, folded k']
  have "set (keptForDays k1) = set (keptForDays k) \<or>
        set (keptForDays k1) = insert (c_id c) (set (keptForDays k))"
    using keptForDays_step[OF s] by (auto split: if_splits)
  with IH show ?case by auto
qed

lemma passedOn_filter:
  "filterCandidates now km cs k = (ds, k') \<Longrightarrow> distinct (map c_id cs) \<Longrightarrow>
   c_id ` set cs \<inter> set (keptForDays k) = {} \<Longrightarrow>
   passedOn (versionsForDays k) cs = filter (\<lambda>c. c_id c \<notin> set (keptForDays k')) cs"
proof (induction cs arbitrary: k ds k')
  case Nil
  then show ?case by simp
next
  case (Cons c cs)
  obtain b k1 where s: "keepOrDelete now km c k = (b, k1)"
    by (cases "keepOrDelete now km c k")
  obtain ds2 k2 where r: "filterCandidates now km cs k1 = (ds2, k2)"
    by (cases "filterCandidates now km cs k1")
  have k': "k' = k2" using Cons.prems(1) s r by (cases b) auto
  note g = keptForDays_grows[OF r, folded k']
  note st = keptForDays_step[OF s]
  from Cons.prems have d: "distinct (map c_id cs)" "c_id c \<notin> c_id ` set cs"
    "c_id c \<notin> set (keptForDays k)" "c_id ` set cs \<inter> set (keptForDays k) = {}"
    by auto
  show ?case
  proof (cases "map_of (versionsForDays k) (dayKey (lastDeployed c)) = Some None")
    case True
    with st have k1: "set (keptForDays k1) = insert (c_id c) (set (keptForDays k))"
      and v: "versionsForDays k1 =
        AList.update (dayKey (lastDeployed c)) (Some (c_id c)) (versionsForDays k)"
      by simp_all
    have "c_id ` set cs \<inter> set (keptForDays k1) = {}" using d k1 by auto
    from Cons.IH[OF r d(1) this, folded k']
    have "passedOn (versionsForDays k1) cs = filter (\<lambda>c. c_id c \<notin> set (keptForDays k')) cs" .
    moreover have "c_id c \<in> set (keptForDays k')" using g k1 by auto
    ultimately show ?thesis using True v by simp
  next
    case False
    with st have k1: "keptForDays k1 = keptForDays k"
      and v: "versionsForDays k1 = versionsForDays k"
      by simp_all
    have "c_id ` set cs \<inter> set (keptForDays k1) = {}" using d k1 by auto
    from Cons.IH[OF r d(1) this, folded k']
    have "passedOn (versionsForDays k1) cs = filter (\<lambda>c. c_id c \<notin> set (keptForDays k')) cs" .
    moreover have "c_id c \<notin> set (keptForDays k')" using g k1 d by auto
    ultimately show ?thesis using False v by simp
  qed
qed

text \<open>
  Claim C3. At most \<open>keepMinimum\<close> versions are kept by the recency rule. They are the first
  \<open>keepMinimum\<close> candidates, in the order of the sort (most recently deployed first), among
  those that the day rule did not keep (\<open>passedOn\<close>: the candidates for which the filter's
  first test fails); the rest of these are the candidates for deletion. Where the ids in scope
  are pairwise distinct, the candidates that the day rule did not keep are those whose id is
  not stored in \<^verbatim>\<open>versionsForDays\<close> at the end.
\<close>

theorem recency_rule_keeps_the_most_recent:
  assumes "classify e now p s keepDaily keepMin versions = (ds, k)"
  defines "recentFirst \<equiv> sortRecentFirst (collect p s versions [])"
  shows "length (keptRecentVersions k) \<le> keepMin \<and>
         keptRecentVersions k =
           map c_id (take keepMin (passedOn (trackDays e now keepDaily) recentFirst)) \<and>
         ds = drop keepMin (passedOn (trackDays e now keepDaily) recentFirst) \<and>
         (distinct (map v_id (filter (inScope p s) versions)) \<longrightarrow>
            passedOn (trackDays e now keepDaily) recentFirst =
              filter (\<lambda>c. c_id c \<notin> set (keptForDays k)) recentFirst)"
proof -
  note f = assms(1)[unfolded classify_def, folded recentFirst_def]
  have "passedOn (trackDays e now keepDaily) recentFirst =
        filter (\<lambda>c. c_id c \<notin> set (keptForDays k)) recentFirst"
    if "distinct (map v_id (filter (inScope p s) versions))"
  proof -
    have d: "distinct (map c_id recentFirst)"
      using that by (simp add: recentFirst_def distinct_sortRecentFirst ids_collect)
    show ?thesis
      using passedOn_filter[OF f d] by (simp add: keptForDays_start startKeeping_simps)
  qed
  with filterCandidates_recent[OF f] show ?thesis by (simp add: startKeeping_simps)
qed

subsection \<open>A filled bucket does not condemn\<close>

lemma filterCandidates_append:
  "filterCandidates now km (xs @ ys) k =
     (case filterCandidates now km xs k of
        (d1, k1) \<Rightarrow> (case filterCandidates now km ys k1 of (d2, k2) \<Rightarrow> (d1 @ d2, k2)))"
  by (induction xs arbitrary: k) (auto split: prod.splits bool.splits)

lemma keptRecent_grows:
  "filterCandidates now km cs k = (ds, k') \<Longrightarrow>
   set (keptRecentVersions k) \<subseteq> set (keptRecentVersions k')"
  by (drule filterCandidates_recent) auto

text \<open>
  Claim C4. Let \<open>c\<close> be a candidate met by the filter after the candidates \<open>pre\<close>, and let
  \<open>k1\<close> be the state after \<open>pre\<close>. When the bucket of \<open>c\<close>'s day is tracked and already
  holds the id of an earlier (more recently deployed) candidate, \<open>c\<close> is not deleted for that
  reason: it is kept by the recency rule when fewer than \<open>keepMinimum\<close> versions have been
  kept by that rule so far, and it is a candidate for deletion otherwise.
\<close>

theorem filled_bucket_falls_through:
  assumes "sortRecentFirst (collect p s versions []) = pre @ c # post"
    and "filterCandidates now keepMin pre (startKeeping e now keepDaily) = (d1, k1)"
    and "map_of (versionsForDays k1) (dayKey (lastDeployed c)) = Some (Some i)"
    and "classify e now p s keepDaily keepMin versions = (ds, k)"
  shows "if length (keptRecentVersions k1) < keepMin
         then c_id c \<in> set (keptRecentVersions k) \<and> c_id c \<in> set (kept k) \<and>
              (distinct (map v_id (filter (inScope p s) versions)) \<longrightarrow> c \<notin> set ds)
         else c \<in> set ds"
proof -
  obtain b k2 where s: "keepOrDelete now keepMin c k1 = (b, k2)"
    by (cases "keepOrDelete now keepMin c k1")
  obtain d3 k3 where r: "filterCandidates now keepMin post k2 = (d3, k3)"
    by (cases "filterCandidates now keepMin post k2")
  have whole: "filterCandidates now keepMin (pre @ c # post) (startKeeping e now keepDaily) = (ds, k)"
    using assms(4) by (simp add: classify_def assms(1))
  have res: "ds = d1 @ (if b then c # d3 else d3)" "k = k3"
    using whole assms(2) s r by (cases b; simp add: filterCandidates_append)+
  show ?thesis
  proof (cases "length (keptRecentVersions k1) < keepMin")
    case True
    then have "keptRecentVersions k2 = keptRecentVersions k1 @ [c_id c]"
      using s assms(3) by (auto simp: keepOrDelete_def Let_def)
    with keptRecent_grows[OF r] have in_recent: "c_id c \<in> set (keptRecentVersions k)"
      by (auto simp: res)
    then have in_kept: "c_id c \<in> set (kept k)" by (simp add: kept_def)
    have "c \<notin> set ds" if dist: "distinct (map v_id (filter (inScope p s) versions))"
    proof -
      have "mset (kept k @ map c_id ds) = mset (map v_id (filter (inScope p s) versions))"
        using classify_mset[OF assms(4)] by simp
      with dist have "distinct (kept k @ map c_id ds)" by (metis mset_eq_imp_distinct_iff)
      with in_kept show ?thesis by auto
    qed
    with True in_recent in_kept show ?thesis by simp
  next
    case False
    then have b using s assms(3) by (auto simp: keepOrDelete_def Let_def)
    with False res show ?thesis by simp
  qed
qed

section \<open>Deletion in chunks\<close>

subsection \<open>The number of chunks\<close>

lemma batches_0: "batches 0 = 0"
  by (simp add: batches_def deleteAtMost_def)

lemma batches_pos:
  assumes "0 < n"
  shows "batches n = Suc (batches (n - deleteAtMost))"
proof (cases "n \<le> 4")
  case True
  with assms have "(n + 3) div 4 = 1" by (intro div_nat_eqI) simp_all
  with True show ?thesis by (simp add: batches_def deleteAtMost_def)
next
  case False
  then obtain m where m: "n = m + 4" by (metis add.commute le_Suc_ex nat_le_linear)
  show ?thesis by (simp add: batches_def deleteAtMost_def m)
qed

lemma batches_ceiling: "int (batches n) = \<lceil>real n / real deleteAtMost\<rceil>"
proof -
  have "\<lceil>real n / real deleteAtMost\<rceil> =
        \<lceil>real_of_int (int n) / real_of_int (int deleteAtMost)\<rceil>"
    by simp
  also have "\<dots> = - (- int n div int deleteAtMost)" by (rule ceiling_divide_eq_div)
  also have "\<dots> = int (batches n)"
    unfolding batches_def deleteAtMost_def by (simp add: zdiv_int)
  finally show ?thesis by simp
qed

subsection \<open>One turn of the loop\<close>

lemma sent_simps:
  "arrays (sent f p s a w) = (arrays w)[a := drop deleteAtMost (arrays w ! a)]"
  "length (spawned (sent f p s a w)) = Suc (length (spawned w))"
  by (simp_all add: sent_def)

lemma spawned_sent:
  "spawned (sent f p s a w) = spawned w @ [deleteArgs p (take deleteAtMost (arrays w ! a)) s]"
  by (simp add: sent_def)

lemma deleteLoop_invalid:
  "\<not> a < length (arrays w) \<Longrightarrow> deleteLoop e l p s a d w = (Inl NotAnArray, w)"
  by (subst deleteLoop.simps) simp

lemma deleteLoop_empty:
  "a < length (arrays w) \<Longrightarrow> arrays w ! a = [] \<Longrightarrow> deleteLoop e l p s a d w = (Inr d, w)"
  by (subst deleteLoop.simps) simp

lemma deleteLoop_no_log:
  "a < length (arrays w) \<Longrightarrow> arrays w ! a \<noteq> [] \<Longrightarrow>
   deleteLoop e None p s a d w =
     (Inl LogIsNotAFunction, w\<lparr>arrays := (arrays w)[a := drop deleteAtMost (arrays w ! a)]\<rparr>)"
  by (subst deleteLoop.simps) (simp add: splice0_def call_log_def)

lemma deleteLoop_not_spawned:
  "a < length (arrays w) \<Longrightarrow> arrays w ! a \<noteq> [] \<Longrightarrow>
   stderr (gcloud e (length (spawned w))) = None \<Longrightarrow>
   deleteLoop e (Some f) p s a d w = (Inl WriteOfNull, sent f p s a w)"
  by (subst deleteLoop.simps) (simp add: splice0_def call_log_def spawnSync_def sent_def)

lemma deleteLoop_failed:
  "a < length (arrays w) \<Longrightarrow> arrays w ! a \<noteq> [] \<Longrightarrow>
   failed (gcloud e (length (spawned w))) \<Longrightarrow>
   deleteLoop e (Some f) p s a d w =
     (Inr d, (sent f p s a w)\<lparr>logged := logged (sent f p s a w) @
              [(f, CouldNotDelete (status (gcloud e (length (spawned w)))))]\<rparr>)"
  by (subst deleteLoop.simps)
     (auto simp add: splice0_def call_log_def spawnSync_def sent_def failed_def)

lemma deleteLoop_unparsed:
  "a < length (arrays w) \<Longrightarrow> arrays w ! a \<noteq> [] \<Longrightarrow>
   status (gcloud e (length (spawned w))) = Some 0 \<Longrightarrow>
   stdout (gcloud e (length (spawned w))) = None \<Longrightarrow>
   stderr (gcloud e (length (spawned w))) \<noteq> None \<Longrightarrow>
   deleteLoop e (Some f) p s a d w = (Inl JSONSyntaxError, sent f p s a w)"
  by (subst deleteLoop.simps)
     (auto simp add: splice0_def call_log_def spawnSync_def sent_def)

lemma deleteLoop_succeeded:
  "a < length (arrays w) \<Longrightarrow> arrays w ! a \<noteq> [] \<Longrightarrow>
   succeeded (gcloud e (length (spawned w))) \<Longrightarrow>
   deleteLoop e (Some f) p s a d w =
     deleteLoop e (Some f) p s a (d + length (take deleteAtMost (arrays w ! a))) (sent f p s a w)"
  by (subst deleteLoop.simps)
     (auto simp add: splice0_def call_log_def spawnSync_def sent_def succeeded_def)

subsection \<open>The loop touches the copy only\<close>

lemma deleteLoop_frame:
  "deleteLoop e l p s a d w = (r, w') \<Longrightarrow>
   length (arrays w') = length (arrays w) \<and> (\<forall>b. b \<noteq> a \<longrightarrow> arrays w' ! b = arrays w ! b)"
proof (induction "length (arrays w ! a)" arbitrary: w d rule: less_induct)
  case less
  show ?case
  proof (cases "a < length (arrays w) \<and> arrays w ! a \<noteq> []")
    case False
    then show ?thesis using less.prems
      by (cases "a < length (arrays w)") (simp_all add: deleteLoop_invalid deleteLoop_empty)
  next
    case True
    then have a: "a < length (arrays w)" and ne: "arrays w ! a \<noteq> []" by auto
    show ?thesis
    proof (cases l)
      case None
      then show ?thesis using less.prems a ne by (auto simp: deleteLoop_no_log)
    next
      case (Some f)
      let ?w3 = "sent f p s a w"
      let ?res = "gcloud e (length (spawned w))"
      have shorter: "length (arrays ?w3 ! a) < length (arrays w ! a)"
        using a ne by (simp add: sent_simps deleteAtMost_def)
      consider (not_spawned) "stderr ?res = None"
        | (failed) "failed ?res"
        | (unparsed) "status ?res = Some 0" "stdout ?res = None" "stderr ?res \<noteq> None"
        | (ok) "succeeded ?res"
        by (auto simp: succeeded_def failed_def)
      then show ?thesis
      proof cases
        case not_spawned
        then show ?thesis using less.prems Some
          by (auto simp: deleteLoop_not_spawned[OF a ne] sent_simps)
      next
        case failed
        then show ?thesis using less.prems Some
          by (auto simp: deleteLoop_failed[OF a ne] sent_simps)
      next
        case unparsed
        then show ?thesis using less.prems Some
          by (auto simp: deleteLoop_unparsed[OF a ne] sent_simps)
      next
        case ok
        with less.prems Some
        have "deleteLoop e l p s a (d + length (take deleteAtMost (arrays w ! a))) ?w3 = (r, w')"
          by (simp add: deleteLoop_succeeded[OF a ne])
        from less.hyps[OF shorter this] show ?thesis by (auto simp: sent_simps)
      qed
    qed
  qed
qed

subsection \<open>Every call succeeds, or the k-th is the first to fail\<close>

lemma chunks_Suc:
  "map (\<lambda>i. h (take deleteAtMost (drop (i * deleteAtMost) xs))) [0..<Suc m] =
   h (take deleteAtMost xs) #
   map (\<lambda>i. h (take deleteAtMost (drop (i * deleteAtMost) (drop deleteAtMost xs)))) [0..<m]"
  by (simp add: map_upt_Suc add.commute del: upt_Suc)

lemma deleteLoop_all_succeed:
  "a < length (arrays w) \<Longrightarrow>
   \<forall>i<batches (length (arrays w ! a)). succeeded (gcloud e (length (spawned w) + i)) \<Longrightarrow>
   \<exists>w'. deleteLoop e (Some f) p s a d w = (Inr (d + length (arrays w ! a)), w') \<and>
        spawned w' = spawned w @
          map (\<lambda>i. deleteArgs p (take deleteAtMost (drop (i * deleteAtMost) (arrays w ! a))) s)
            [0..<batches (length (arrays w ! a))]"
proof (induction "length (arrays w ! a)" arbitrary: w d rule: less_induct)
  case less
  show ?case
  proof (cases "arrays w ! a = []")
    case True
    then show ?thesis using less.prems(1) by (simp add: deleteLoop_empty batches_0)
  next
    case ne: False
    note a = less.prems(1)
    let ?w3 = "sent f p s a w"
    have b: "batches (length (arrays w ! a)) = Suc (batches (length (arrays w ! a) - deleteAtMost))"
      using ne by (intro batches_pos) simp
    have first: "succeeded (gcloud e (length (spawned w)))"
      using less.prems(2)[rule_format, of 0] b by simp
    have shorter: "length (arrays ?w3 ! a) < length (arrays w ! a)"
      using a ne by (simp add: sent_simps deleteAtMost_def)
    have a3: "a < length (arrays ?w3)" using a by (simp add: sent_simps)
    have arr3: "arrays ?w3 ! a = drop deleteAtMost (arrays w ! a)"
      using a by (simp add: sent_simps)
    have len3: "length (arrays ?w3 ! a) = length (arrays w ! a) - deleteAtMost"
      using a by (simp add: sent_simps)
    have rest: "\<forall>i<batches (length (arrays ?w3 ! a)).
                  succeeded (gcloud e (length (spawned ?w3) + i))"
    proof (intro allI impI)
      fix i assume "i < batches (length (arrays ?w3 ! a))"
      then have "Suc i < batches (length (arrays w ! a))" using b len3 by simp
      from less.prems(2)[rule_format, OF this]
      show "succeeded (gcloud e (length (spawned ?w3) + i))"
        by (simp add: sent_simps)
    qed
    from less.hyps[OF shorter a3 rest, of "d + length (take deleteAtMost (arrays w ! a))"]
    obtain w' where w':
      "deleteLoop e (Some f) p s a (d + length (take deleteAtMost (arrays w ! a))) ?w3 =
        (Inr (d + length (take deleteAtMost (arrays w ! a)) + length (arrays ?w3 ! a)), w')"
      "spawned w' = spawned ?w3 @
         map (\<lambda>i. deleteArgs p (take deleteAtMost (drop (i * deleteAtMost) (arrays ?w3 ! a))) s)
           [0..<batches (length (arrays ?w3 ! a))]"
      by blast
    have "length (take deleteAtMost (arrays w ! a)) + length (arrays ?w3 ! a) =
          length (arrays w ! a)"
      using len3 by simp
    then have count: "d + length (take deleteAtMost (arrays w ! a)) + length (arrays ?w3 ! a) =
               d + length (arrays w ! a)"
      by simp
    have calls: "spawned w' = spawned w @
        map (\<lambda>i. deleteArgs p (take deleteAtMost (drop (i * deleteAtMost) (arrays w ! a))) s)
          [0..<batches (length (arrays w ! a))]"
      unfolding w'(2) spawned_sent arr3 b
        chunks_Suc[where h = "\<lambda>next. deleteArgs p next s" and xs = "arrays w ! a"]
      by simp
    have "deleteLoop e (Some f) p s a d w = (Inr (d + length (arrays w ! a)), w')"
      using w'(1) count by (simp add: deleteLoop_succeeded[OF a ne first])
    with calls show ?thesis by blast
  qed
qed

lemma deleteLoop_first_failure:
  "a < length (arrays w) \<Longrightarrow> k < batches (length (arrays w ! a)) \<Longrightarrow>
   \<forall>i<k. succeeded (gcloud e (length (spawned w) + i)) \<Longrightarrow>
   failed (gcloud e (length (spawned w) + k)) \<Longrightarrow>
   \<exists>w'. deleteLoop e (Some f) p s a d w = (Inr (d + k * deleteAtMost), w') \<and>
        spawned w' = spawned w @
          map (\<lambda>i. deleteArgs p (take deleteAtMost (drop (i * deleteAtMost) (arrays w ! a))) s)
            [0..<Suc k]"
proof (induction k arbitrary: w d)
  case 0
  then have ne: "arrays w ! a \<noteq> []" by (auto simp: batches_0)
  from 0 show ?case by (simp add: deleteLoop_failed[OF "0.prems"(1) ne] spawned_sent)
next
  case (Suc k)
  note a = Suc.prems(1)
  from Suc.prems(2) have ne: "arrays w ! a \<noteq> []" by (auto simp: batches_0)
  let ?w3 = "sent f p s a w"
  have b: "batches (length (arrays w ! a)) = Suc (batches (length (arrays w ! a) - deleteAtMost))"
    using ne by (intro batches_pos) simp
  have first: "succeeded (gcloud e (length (spawned w)))"
    using Suc.prems(3)[rule_format, of 0] by simp
  have a3: "a < length (arrays ?w3)" using a by (simp add: sent_simps)
  have arr3: "arrays ?w3 ! a = drop deleteAtMost (arrays w ! a)"
    using a by (simp add: sent_simps)
  have len3: "length (arrays ?w3 ! a) = length (arrays w ! a) - deleteAtMost"
    using a by (simp add: sent_simps)
  have k3: "k < batches (length (arrays ?w3 ! a))" using Suc.prems(2) b len3 by simp
  then have "length (arrays ?w3 ! a) \<noteq> 0" by (auto simp: batches_0)
  then have full: "min (length (arrays w ! a)) deleteAtMost = deleteAtMost"
    using len3 by simp
  have ok3: "\<forall>i<k. succeeded (gcloud e (length (spawned ?w3) + i))"
    using Suc.prems(3) by (auto simp: sent_simps)
  have bad3: "failed (gcloud e (length (spawned ?w3) + k))"
    using Suc.prems(4) by (simp add: sent_simps)
  from Suc.IH[OF a3 k3 ok3 bad3, of "d + deleteAtMost"]
  obtain w' where w':
    "deleteLoop e (Some f) p s a (d + deleteAtMost) ?w3 =
       (Inr (d + deleteAtMost + k * deleteAtMost), w')"
    "spawned w' = spawned ?w3 @
       map (\<lambda>i. deleteArgs p (take deleteAtMost (drop (i * deleteAtMost) (arrays ?w3 ! a))) s)
         [0..<Suc k]"
    by blast
  have calls: "spawned w' = spawned w @
      map (\<lambda>i. deleteArgs p (take deleteAtMost (drop (i * deleteAtMost) (arrays w ! a))) s)
        [0..<Suc (Suc k)]"
    unfolding w'(2) spawned_sent arr3
      chunks_Suc[where h = "\<lambda>next. deleteArgs p next s" and xs = "arrays w ! a" and m = "Suc k"]
    by simp
  have "deleteLoop e (Some f) p s a d w = (Inr (d + Suc k * deleteAtMost), w')"
    using w'(1) by (simp add: deleteLoop_succeeded[OF a ne first] full add.assoc)
  with calls show ?case by blast
qed

lemma deleteArgs_expected:
  "deleteArgs (Str (project opts)) (take deleteAtMost (drop (i * deleteAtMost) ids))
     (case service opts of None \<Rightarrow> Undefined | Some t \<Rightarrow> Str t) =
   expectedDeleteCall opts ids i"
  by (simp add: deleteArgs_def expectedDeleteCall_def deleteAtMost_def mult.commute)

subsection \<open>deleteVersions\<close>

lemma checkVersions_bad:
  "v \<in> set vs \<Longrightarrow> badVersion v \<Longrightarrow>
   \<exists>bad\<in>set vs. badVersion bad \<and> checkVersions vs = Inl (BadVersion bad)"
  by (induction vs) auto

lemma checkVersions_good:
  "\<forall>v\<in>set vs. \<not> badVersion v \<Longrightarrow> checkVersions vs = Inr ()"
  by (induction vs) auto

lemma destructure_Options:
  "destructure (Options opts) =
     Inr (log_fn opts, Str (project opts),
          (case service opts of None \<Rightarrow> Undefined | Some s \<Rightarrow> Str s))"
  by (simp add: destructure_def)

lemma deleteVersions_valid:
  "versions < length (arrays w) \<Longrightarrow> \<forall>v\<in>set (arrays w ! versions). \<not> badVersion v \<Longrightarrow>
   deleteVersions e (Options opts) versions w =
     deleteLoop e (log_fn opts) (Str (project opts))
       (case service opts of None \<Rightarrow> Undefined | Some s \<Rightarrow> Str s)
       (length (arrays w)) 0 (w\<lparr>arrays := arrays w @ [arrays w ! versions]\<rparr>)"
  by (simp add: deleteVersions_def destructure_Options checkVersions_good slice_def)

text \<open>
  Claim C5, amended. Let the array \<open>versions\<close> hold \<open>L\<close> valid ids, let \<^verbatim>\<open>log\<close> be a
  function, and let \<open>n\<close> child processes have been spawned before the call. If each of the
  next \<open>\<lceil>L / 4\<rceil>\<close> calls of \<^verbatim>\<open>gcloud\<close> succeeds (the child ran, exited with status 0 and
  printed JSON), \<^verbatim>\<open>deleteVersions\<close> returns \<open>L\<close> and has issued exactly \<open>\<lceil>L / 4\<rceil>\<close> calls,
  the \<open>i\<close>-th of them (from 0) being
  \<^verbatim>\<open>gcloud app --project <project> versions delete <ids> --service <service> --format="json"\<close>
  with the ids at positions \<open>4 i, \<dots>, 4 i + 3\<close>. If the \<open>k\<close>-th call (\<open>1 \<le> k \<le> \<lceil>L / 4\<rceil>\<close>)
  is the first to fail (the child ran and did not exit with status 0), the calls before
  it having succeeded, \<^verbatim>\<open>deleteVersions\<close> returns \<open>(k - 1) * 4\<close> and has issued exactly the
  first \<open>k\<close> of these calls.
\<close>

theorem deletion_in_batches:
  assumes "versions < length (arrays w)"
    and "\<forall>v\<in>set (arrays w ! versions). \<not> badVersion v"
    and "log_fn opts = Some f"
  defines "ids \<equiv> arrays w ! versions"
    and "n \<equiv> length (spawned w)"
  shows "((\<forall>i<nat \<lceil>real (length ids) / 4\<rceil>. succeeded (gcloud e (n + i))) \<longrightarrow>
            (\<exists>w'. deleteVersions e (Options opts) versions w = (Inr (length ids), w') \<and>
                  spawned w' = spawned w @
                    map (expectedDeleteCall opts ids) [0..<nat \<lceil>real (length ids) / 4\<rceil>])) \<and>
         (\<forall>k. 1 \<le> k \<and> int k \<le> \<lceil>real (length ids) / 4\<rceil> \<and>
              (\<forall>i<k - 1. succeeded (gcloud e (n + i))) \<and>
              failed (gcloud e (n + (k - 1))) \<longrightarrow>
            (\<exists>w'. deleteVersions e (Options opts) versions w = (Inr ((k - 1) * 4), w') \<and>
                  spawned w' = spawned w @ map (expectedDeleteCall opts ids) [0..<k]))"
proof -
  let ?w1 = "w\<lparr>arrays := arrays w @ [arrays w ! versions]\<rparr>"
  let ?c = "length (arrays w)"
  let ?p = "Str (project opts)"
  let ?s = "case service opts of None \<Rightarrow> Undefined | Some s \<Rightarrow> Str s"
  have c: "?c < length (arrays ?w1)" "arrays ?w1 ! ?c = ids" "spawned ?w1 = spawned w"
    by (simp_all add: ids_def)
  have bc: "nat \<lceil>real (length ids) / 4\<rceil> = batches (length ids)"
    using batches_ceiling[of "length ids"] by (simp add: deleteAtMost_def)
  have calls: "map (\<lambda>i. deleteArgs ?p (take deleteAtMost (drop (i * deleteAtMost) ids)) ?s) js =
               map (expectedDeleteCall opts ids) js" for js
    by (simp add: deleteArgs_expected)
  note dv = deleteVersions_valid[OF assms(1,2), of e opts, unfolded assms(3)]
  have all: "\<exists>w'. deleteVersions e (Options opts) versions w = (Inr (length ids), w') \<and>
                  spawned w' = spawned w @
                    map (expectedDeleteCall opts ids) [0..<nat \<lceil>real (length ids) / 4\<rceil>]"
    if ok: "\<forall>i<nat \<lceil>real (length ids) / 4\<rceil>. succeeded (gcloud e (n + i))"
  proof -
    have "\<forall>i<batches (length (arrays ?w1 ! ?c)). succeeded (gcloud e (length (spawned ?w1) + i))"
      using ok unfolding c bc n_def by simp
    from deleteLoop_all_succeed[OF c(1) this, of f ?p ?s 0]
    show ?thesis unfolding dv c calls bc by simp
  qed
  have part: "\<exists>w'. deleteVersions e (Options opts) versions w = (Inr ((k - 1) * 4), w') \<and>
                  spawned w' = spawned w @ map (expectedDeleteCall opts ids) [0..<k]"
    if k: "1 \<le> k" "int k \<le> \<lceil>real (length ids) / 4\<rceil>"
      "\<forall>i<k - 1. succeeded (gcloud e (n + i))" "failed (gcloud e (n + (k - 1)))"
    for k
  proof -
    from k(2) have "k \<le> batches (length ids)" using bc by linarith
    with k(1) have lt: "k - 1 < batches (length (arrays ?w1 ! ?c))" unfolding c by simp
    have ok: "\<forall>i<k - 1. succeeded (gcloud e (length (spawned ?w1) + i))"
      using k(3) unfolding c n_def by simp
    have bad: "failed (gcloud e (length (spawned ?w1) + (k - 1)))"
      using k(4) unfolding c n_def by simp
    have sk: "Suc (k - 1) = k" using k(1) by simp
    from deleteLoop_first_failure[OF c(1) lt ok bad, of f ?p ?s 0]
    show ?thesis unfolding dv c calls sk by (simp add: deleteAtMost_def)
  qed
  from all part show ?thesis by blast
qed

text \<open>
  Claim C6. If any element of the array \<open>versions\<close> is not a string, or is a string that
  starts with \<^verbatim>\<open>-\<close>, or is a string that contains a backslash, \<^verbatim>\<open>deleteVersions\<close> throws
  \<^verbatim>\<open>bad version\<close> for an element of the array and leaves the world as it was: no child
  process has been spawned, nothing has been logged, no array has changed. The check runs
  over the whole array before the loop starts.
\<close>

theorem bad_version_rejects_everything:
  assumes "versions < length (arrays w)"
    and "v \<in> set (arrays w ! versions)"
    and "(\<forall>t. v \<noteq> Str t) \<or> (\<exists>t. v = Str (CHR ''-'' # t)) \<or>
         (\<exists>t. v = Str t \<and> CHR 0x5C \<in> set t)"
    and "options \<noteq> Primitive Null" and "options \<noteq> Primitive Undefined"
  shows "\<exists>bad\<in>set (arrays w ! versions).
           deleteVersions e options versions w = (Inl (BadVersion bad), w)"
proof -
  have "badVersion v" using assms(3) by (cases v) (auto simp: badVersion_def)
  from checkVersions_bad[OF assms(2) this] obtain bad where
    bad: "bad \<in> set (arrays w ! versions)"
      "checkVersions (arrays w ! versions) = Inl (BadVersion bad)"
    by blast
  obtain l p s where d: "destructure options = Inr (l, p, s)"
    using assms(4,5) by (cases options; cases "case options of Primitive x \<Rightarrow> x")
      (auto simp: destructure_def split: js_value.splits)
  show ?thesis using bad d assms(1) by (auto simp: deleteVersions_def)
qed

text \<open>
  Claim C10. Whatever the options, the address, the ids and the answers of \<^verbatim>\<open>gcloud\<close>, and
  whether \<^verbatim>\<open>deleteVersions\<close> returns or throws, every array that existed before the call holds
  the same elements in the same order after it, the caller's array of ids among them: the
  loop splices the copy made by \<^verbatim>\<open>slice\<close>.
\<close>

theorem callers_array_unchanged:
  "take (length (arrays w)) (arrays (snd (deleteVersions e options versions w))) = arrays w"
proof (cases "\<exists>l p s. deleteVersions e options versions w =
    deleteLoop e l p s (length (arrays w)) 0 (w\<lparr>arrays := arrays w @ [arrays w ! versions]\<rparr>)")
  case True
  then obtain l p s where dv: "deleteVersions e options versions w =
      deleteLoop e l p s (length (arrays w)) 0 (w\<lparr>arrays := arrays w @ [arrays w ! versions]\<rparr>)"
    by blast
  obtain r w' where r: "deleteLoop e l p s (length (arrays w)) 0
      (w\<lparr>arrays := arrays w @ [arrays w ! versions]\<rparr>) = (r, w')"
    by (cases "deleteLoop e l p s (length (arrays w)) 0
      (w\<lparr>arrays := arrays w @ [arrays w ! versions]\<rparr>)")
  from deleteLoop_frame[OF r]
  have len: "length (arrays w') = Suc (length (arrays w))"
    and same: "\<forall>b. b \<noteq> length (arrays w) \<longrightarrow>
                 arrays w' ! b = (arrays w @ [arrays w ! versions]) ! b"
    by simp_all
  have "take (length (arrays w)) (arrays w') = arrays w"
    by (rule nth_equalityI) (use len same in \<open>auto simp: nth_append\<close>)
  then show ?thesis by (simp add: dv r)
next
  case False
  then have "snd (deleteVersions e options versions w) = w"
    by (auto simp: deleteVersions_def slice_def split: sum.splits prod.splits if_splits)
  then show ?thesis by simp
qed

section \<open>The concrete run\<close>

subsection \<open>Classification of the listing\<close>

lemma dayKey_examples:
  "dayKey 1600020000000 = ''2020-09-13''"
  "dayKey 1599987600000 = ''2020-09-13''"
  "dayKey 1600009200000 = ''2020-09-13''"
  "dayKey 1599998400000 = ''2020-09-13''"
  "dayKey 1599739200000 = ''2020-09-10''"
  "dayKey 1598961600000 = ''2020-09-01''"
  by code_simp+

lemma dayKey_week:
  "dayKey 1599933600000 = ''2020-09-12''"
  "dayKey 1599847200000 = ''2020-09-11''"
  "dayKey 1599760800000 = ''2020-09-10''"
  "dayKey 1599674400000 = ''2020-09-09''"
  "dayKey 1599588000000 = ''2020-09-08''"
  "dayKey 1599501600000 = ''2020-09-07''"
  by code_simp+

lemma clock_utcHost: "clock (utcHost answers) = 1600020000000"
  by (simp add: utcHost_def)

lemma gcloud_utcHost: "gcloud (utcHost answers) = answers"
  by (simp add: utcHost_def)

lemma daysAgo_utcHost: "daysAgo (utcHost answers) now i = now - int i * 86400000"
  by (simp add: daysAgo_def utcHost_def msPerDay_def)

lemma collect_listing:
  "collect ''p'' ''default'' listing [] =
     [cand ''v09'' 1599987600000, cand ''v15'' 1600009200000, cand ''old10'' 1599739200000,
      cand ''v12'' 1599998400000, cand ''old01'' 1598961600000]"
  by (simp add: listing_def deployed_def unexpected_def candidateOf_def cand_def)

lemma collect_listing_api:
  "collect ''p'' ''api'' listing [] = [cand ''api1'' 1600009200000]"
  by (simp add: listing_def deployed_def unexpected_def candidateOf_def cand_def)

lemma ids_listing:
  "map v_id (filter (inScope ''p'' ''default'') listing) =
     [''v09'', ''v15'', ''old10'', ''v12'', ''old01'']"
  by (simp add: ids_collect[symmetric] collect_listing cand_def)

lemma sorted_listing:
  "sortRecentFirst (collect ''p'' ''default'' listing []) =
     [cand ''v15'' 1600009200000, cand ''v12'' 1599998400000, cand ''v09'' 1599987600000,
      cand ''old10'' 1599739200000, cand ''old01'' 1598961600000]"
  by (simp add: collect_listing sortRecentFirst_def cand_def)

lemma sorted_listing_api:
  "sortRecentFirst (collect ''p'' ''api'' listing []) = [cand ''api1'' 1600009200000]"
  by (simp add: collect_listing_api sortRecentFirst_def)

lemma startKeeping_today:
  "startKeeping (utcHost f) 1600020000000 (Suc 0) =
     \<lparr>versionsForDays = [(''2020-09-13'', None)], keptRecentVersions = [], lines = []\<rparr>"
  by (simp add: startKeeping_def trackDays_def daysAgo_utcHost dayKey_examples)

lemma startKeeping_none:
  "startKeeping e now 0 = \<lparr>versionsForDays = [], keptRecentVersions = [], lines = []\<rparr>"
  by (simp add: startKeeping_def trackDays_def)

lemma upt_7: "[0..<7] = [0, 1, 2, 3, 4, 5, 6]"
  by code_simp

lemma startKeeping_week:
  "startKeeping (utcHost f) 1600020000000 7 =
     \<lparr>versionsForDays =
        [(''2020-09-13'', None), (''2020-09-12'', None), (''2020-09-11'', None),
         (''2020-09-10'', None), (''2020-09-09'', None), (''2020-09-08'', None),
         (''2020-09-07'', None)],
      keptRecentVersions = [], lines = []\<rparr>"
  unfolding startKeeping_def trackDays_def upt_7
  by (simp add: daysAgo_utcHost dayKey_examples dayKey_week)

lemma keep_v15:
  "filterCandidates 1600020000000 (Suc 0) [cand ''v15'' 1600009200000]
     \<lparr>versionsForDays = [(''2020-09-13'', None)], keptRecentVersions = [], lines = []\<rparr> =
   ([], \<lparr>versionsForDays = [(''2020-09-13'', Some ''v15'')], keptRecentVersions = [],
         lines = [KeepingFor ''2020-09-13'' ''v15'' 10800000]\<rparr>)"
  by (simp add: keepOrDelete_def Let_def cand_def dayKey_examples)

lemma keep_v15_v12:
  "filterCandidates 1600020000000 (Suc 0)
     [cand ''v15'' 1600009200000, cand ''v12'' 1599998400000]
     \<lparr>versionsForDays = [(''2020-09-13'', None)], keptRecentVersions = [], lines = []\<rparr> =
   ([], \<lparr>versionsForDays = [(''2020-09-13'', Some ''v15'')], keptRecentVersions = [''v12''],
         lines = [KeepingFor ''2020-09-13'' ''v15'' 10800000,
                  KeepingForRecent 1 ''v12'' 21600000]\<rparr>)"
  by (simp add: keepOrDelete_def Let_def cand_def dayKey_examples)

lemma classify_listing:
  "classify (utcHost f) 1600020000000 ''p'' ''default'' (Suc 0) (Suc 0) listing =
     ([cand ''v09'' 1599987600000, cand ''old10'' 1599739200000, cand ''old01'' 1598961600000],
      \<lparr>versionsForDays = [(''2020-09-13'', Some ''v15'')], keptRecentVersions = [''v12''],
       lines = [KeepingFor ''2020-09-13'' ''v15'' 10800000, KeepingForRecent 1 ''v12'' 21600000,
                Deleting ''v09'' 32400000, Deleting ''old10'' 280800000,
                Deleting ''old01'' 1058400000]\<rparr>)"
  unfolding classify_def sorted_listing startKeeping_today
  by (simp add: keepOrDelete_def Let_def cand_def dayKey_examples)


lemma classify_listing_api:
  "classify e 1600020000000 ''p'' ''api'' 0 0 listing =
     ([cand ''api1'' 1600009200000],
      \<lparr>versionsForDays = [], keptRecentVersions = [],
       lines = [Deleting ''api1'' 10800000]\<rparr>)"
  unfolding classify_def sorted_listing_api startKeeping_none
  by (simp add: keepOrDelete_def Let_def cand_def)

lemma classify_listing_defaults:
  "fst (classify (utcHost f) 1600020000000 ''p'' ''default'' 7 20 listing) = []"
  unfolding classify_def sorted_listing startKeeping_week
  by (simp add: keepOrDelete_def Let_def cand_def dayKey_examples)

subsection \<open>The classification theorems on the listing\<close>

theorem classification_partitions_witness:
  "case classify (utcHost allSucceed) 1600020000000 ''p'' ''default'' 1 1 listing of
     (ds, k) \<Rightarrow>
       kept k = [''v15'', ''v12''] \<and>
       map c_id ds = [''v09'', ''old10'', ''old01''] \<and>
       set (kept k) \<inter> set (map c_id ds) = {}"
proof -
  have d: "distinct (map v_id (filter (inScope ''p'' ''default'') listing))"
    by (simp add: ids_listing)
  from classification_partitions
         [where e = "utcHost allSucceed" and now = 1600020000000 and p = "''p''"
            and s = "''default''" and keepDaily = 1 and keepMin = 1 and versions = listing] d
  show ?thesis
    by (simp add: classify_listing kept_def keptForDays_def List.map_filter_simps cand_def)
qed

lemma one_survivor_per_tracked_key_today:
  "\<exists>ds k. classify (utcHost allSucceed) 1600020000000 ''p'' ''default'' 1 1 listing = (ds, k) \<and>
          keptFor ''2020-09-13'' (lines k) = [''v15''] \<and>
          map_of (versionsForDays k) ''2020-09-13'' = Some (Some ''v15'')"
proof -
  have h: "(0::nat) < Suc 0" by simp
  have ex: "\<exists>c\<in>set (collect ''p'' ''default'' listing []).
              dayKey (lastDeployed c) = dayKey (daysAgo (utcHost allSucceed) 1600020000000 0)"
    by (simp add: collect_listing cand_def dayKey_examples daysAgo_utcHost)
  from one_survivor_per_tracked_key[OF h classify_listing[of allSucceed]] ex
  show ?thesis by (simp add: classify_listing)
qed

theorem recency_rule_keeps_the_most_recent_witness:
  "\<exists>ds k. classify (utcHost allSucceed) 1600020000000 ''p'' ''default'' 1 1 listing = (ds, k) \<and>
          length (keptRecentVersions k) \<le> 1 \<and>
          keptRecentVersions k = [''v12''] \<and>
          map c_id ds = [''v09'', ''old10'', ''old01'']"
proof -
  have d: "distinct (map v_id (filter (inScope ''p'' ''default'') listing))"
    by (simp add: ids_listing)
  note t = recency_rule_keeps_the_most_recent[OF classify_listing[of allSucceed]]
  from t have len: "length (keptRecentVersions
      \<lparr>versionsForDays = [(''2020-09-13'', Some ''v15'')], keptRecentVersions = [''v12''],
       lines = [KeepingFor ''2020-09-13'' ''v15'' 10800000, KeepingForRecent 1 ''v12'' 21600000,
                Deleting ''v09'' 32400000, Deleting ''old10'' 280800000,
                Deleting ''old01'' 1058400000]\<rparr>) \<le> Suc 0"
    by (rule conjunct1)
  from t[THEN conjunct2, THEN conjunct2, THEN conjunct2, THEN mp, OF d]
  have "passedOn (trackDays (utcHost allSucceed) 1600020000000 (Suc 0))
          (sortRecentFirst (collect ''p'' ''default'' listing [])) \<noteq> []"
    by (simp only: sorted_listing) (simp add: keptForDays_def List.map_filter_simps cand_def)
  with len show ?thesis by (simp add: classify_listing cand_def)
qed

theorem filled_bucket_falls_through_witness:
  "''v12'' \<in> set (keptRecentVersions
      (snd (classify (utcHost allSucceed) 1600020000000 ''p'' ''default'' 1 1 listing))) \<and>
   cand ''v09'' 1599987600000 \<in>
      set (fst (classify (utcHost allSucceed) 1600020000000 ''p'' ''default'' 1 1 listing))"
proof -
  have s1: "sortRecentFirst (collect ''p'' ''default'' listing []) =
      [cand ''v15'' 1600009200000] @ cand ''v12'' 1599998400000 #
      [cand ''v09'' 1599987600000, cand ''old10'' 1599739200000, cand ''old01'' 1598961600000]"
    by (simp add: sorted_listing)
  have s2: "sortRecentFirst (collect ''p'' ''default'' listing []) =
      [cand ''v15'' 1600009200000, cand ''v12'' 1599998400000] @ cand ''v09'' 1599987600000 #
      [cand ''old10'' 1599739200000, cand ''old01'' 1598961600000]"
    by (simp add: sorted_listing)
  note f1 = keep_v15[folded startKeeping_today[of allSucceed]]
  note f2 = keep_v15_v12[folded startKeeping_today[of allSucceed]]
  have b1: "map_of (versionsForDays
      \<lparr>versionsForDays = [(''2020-09-13'', Some ''v15'')], keptRecentVersions = [],
       lines = [KeepingFor ''2020-09-13'' ''v15'' 10800000]\<rparr>)
      (dayKey (lastDeployed (cand ''v12'' 1599998400000))) = Some (Some ''v15'')"
    by (simp add: cand_def dayKey_examples)
  have b2: "map_of (versionsForDays
      \<lparr>versionsForDays = [(''2020-09-13'', Some ''v15'')], keptRecentVersions = [''v12''],
       lines = [KeepingFor ''2020-09-13'' ''v15'' 10800000,
                KeepingForRecent 1 ''v12'' 21600000]\<rparr>)
      (dayKey (lastDeployed (cand ''v09'' 1599987600000))) = Some (Some ''v15'')"
    by (simp add: cand_def dayKey_examples)
  from filled_bucket_falls_through[OF s1 f1 b1 classify_listing[of allSucceed]]
  have kept12: "''v12'' \<in> set (keptRecentVersions
      (snd (classify (utcHost allSucceed) 1600020000000 ''p'' ''default'' 1 1 listing)))"
    by (simp add: classify_listing cand_def)
  from filled_bucket_falls_through[OF s2 f2 b2 classify_listing[of allSucceed]]
  have del09: "cand ''v09'' 1599987600000 \<in>
      set (fst (classify (utcHost allSucceed) 1600020000000 ''p'' ''default'' 1 1 listing))"
    by (simp add: classify_listing)
  from kept12 del09 show ?thesis by simp
qed

subsection \<open>The tracked days on a host that changes its clock\<close>

lemma dayKey_november:
  "dayKey 1604277000000 = ''2020-11-02''"
  "dayKey 1604187000000 = ''2020-10-31''"
  "dayKey 1604100600000 = ''2020-10-30''"
  "dayKey 1604232000000 = ''2020-11-01''"
  "dayKey 1604190600000 = ''2020-11-01''"
  by code_simp+

lemma clock_newYorkHost: "clock (newYorkHost answers) = 1604277000000"
  by (simp add: newYorkHost_def)

lemma daysAgo_newYorkHost:
  "daysAgo (newYorkHost answers) 1604277000000 0 = 1604277000000"
  "daysAgo (newYorkHost answers) 1604277000000 (Suc 0) = 1604187000000"
  "daysAgo (newYorkHost answers) 1604277000000 2 = 1604100600000"
  by (simp_all add: daysAgo_def newYorkHost_def newYorkTZA_def msPerDay_def Let_def)

lemma upt_3: "[0..<3] = [0, 1, 2]"
  by code_simp

lemma startKeeping_newYorkHost:
  "startKeeping (newYorkHost answers) 1604277000000 3 =
     \<lparr>versionsForDays = [(''2020-11-02'', None), (''2020-10-31'', None), (''2020-10-30'', None)],
      keptRecentVersions = [], lines = []\<rparr>"
  unfolding startKeeping_def trackDays_def upt_3
  by (simp add: daysAgo_newYorkHost dayKey_november)

lemma sorted_novemberListing:
  "sortRecentFirst (collect ''p'' ''default'' novemberListing []) = [cand ''nov01'' 1604232000000]"
  by (simp add: novemberListing_def deployed_def unexpected_def candidateOf_def cand_def
      sortRecentFirst_def)

text \<open>
  Claim C2. Each of the \<open>keepDailyAmount\<close> calendar days that end with the date of \<open>now\<close>
  must protect its most recent version. The host is in New York, the clock reads
  2020-11-02T00:30:00Z (2020-11-01 19:30 local time, the day daylight saving time ended),
  \<open>keepDailyAmount\<close> is 3 and \<open>keepMinimum\<close> is 0; the only version was deployed on
  2020-11-01 at 12:00 UTC. 2020-11-01 is the day before the date of \<open>now\<close> (and is the local
  date of \<open>now\<close>), so the version should be kept for it. The code moves the local date
  back and reads the UTC date: it tracks 2020-11-02, 2020-10-31 and 2020-10-30, not
  2020-11-01, and leaves the version among the candidates for deletion.
\<close>

theorem day_before_now_is_not_tracked:
  "classify (newYorkHost allSucceed) (clock (newYorkHost allSucceed)) ''p'' ''default'' 3 0
     novemberListing =
     ([cand ''nov01'' 1604232000000],
      \<lparr>versionsForDays = [(''2020-11-02'', None), (''2020-10-31'', None), (''2020-10-30'', None)],
       keptRecentVersions = [],
       lines = [Deleting ''nov01'' 45000000]\<rparr>) \<and>
   dayKey (clock (newYorkHost allSucceed)) = ''2020-11-02'' \<and>
   dayKey (clock (newYorkHost allSucceed) - 1 * msPerDay) = ''2020-11-01'' \<and>
   dayKey (last_deployed_time (hd novemberListing)) = ''2020-11-01''"
proof -
  have "classify (newYorkHost allSucceed) 1604277000000 ''p'' ''default'' 3 0 novemberListing =
     ([cand ''nov01'' 1604232000000],
      \<lparr>versionsForDays = [(''2020-11-02'', None), (''2020-10-31'', None), (''2020-10-30'', None)],
       keptRecentVersions = [],
       lines = [Deleting ''nov01'' 45000000]\<rparr>)"
    unfolding classify_def sorted_novemberListing startKeeping_newYorkHost
    by (simp add: keepOrDelete_def Let_def cand_def dayKey_november)
  then show ?thesis
    by (simp add: clock_newYorkHost msPerDay_def dayKey_november novemberListing_def deployed_def)
qed

subsection \<open>The deletion theorems on nine ids\<close>

lemma nineIds_valid: "\<forall>v\<in>set nineIds. \<not> badVersion v"
  by (simp add: nineIds_def badVersion_def)

lemma three_batches: "\<lceil>real (length nineIds) / 4\<rceil> = 3"
  by (simp add: nineIds_def)

lemma expected_nineIdsCalls:
  "[expectedDeleteCall fullOptions nineIds 0, expectedDeleteCall fullOptions nineIds (Suc 0),
    expectedDeleteCall fullOptions nineIds 2] = nineIdsCalls"
  by (simp add: expectedDeleteCall_def fullOptions_def nineIds_def nineIdsCalls_def)

theorem deletion_in_batches_witness:
  "(\<exists>w'. deleteVersions (utcHost allSucceed) (Options fullOptions) 0 (onlyIds nineIds) =
            (Inr 9, w') \<and> spawned w' = nineIdsCalls) \<and>
   (\<exists>w'. deleteVersions (utcHost thirdFails) (Options fullOptions) 0 (onlyIds nineIds) =
            (Inr 8, w') \<and> spawned w' = nineIdsCalls)"
proof -
  have a: "0 < length (arrays (onlyIds nineIds))" by (simp add: onlyIds_def)
  have g: "\<forall>v\<in>set (arrays (onlyIds nineIds) ! 0). \<not> badVersion v"
    using nineIds_valid by (simp add: onlyIds_def)
  have l: "log_fn fullOptions = Some ConsoleInfo" by (simp add: fullOptions_def)
  have ids: "arrays (onlyIds nineIds) ! 0 = nineIds" "spawned (onlyIds nineIds) = []"
    by (simp_all add: onlyIds_def)
  have len: "length nineIds = 9" by (simp add: nineIds_def)
  note t = deletion_in_batches[OF a g l, unfolded ids three_batches]
  have ok: "\<forall>i<nat 3. succeeded (gcloud (utcHost allSucceed) (length ([]::js_value list list) + i))"
    by (simp add: gcloud_utcHost allSucceed_def done_ok_def succeeded_def)
  from t[of "utcHost allSucceed", THEN conjunct1, THEN mp, OF ok]
  have all: "\<exists>w'. deleteVersions (utcHost allSucceed) (Options fullOptions) 0 (onlyIds nineIds) =
      (Inr 9, w') \<and> spawned w' = nineIdsCalls"
    by (simp add: len upt_3 expected_nineIdsCalls)
  have third: "1 \<le> (3::nat) \<and> int 3 \<le> 3 \<and>
      (\<forall>i<3 - 1. succeeded (gcloud (utcHost thirdFails) (length ([]::js_value list list) + i))) \<and>
      failed (gcloud (utcHost thirdFails) (length ([]::js_value list list) + (3 - 1)))"
    by (simp add: gcloud_utcHost thirdFails_def done_ok_def exit_1_def succeeded_def failed_def)
  from t[of "utcHost thirdFails", THEN conjunct2, THEN spec[where x = 3], THEN mp, OF third]
  have part: "\<exists>w'. deleteVersions (utcHost thirdFails) (Options fullOptions) 0 (onlyIds nineIds) =
      (Inr 8, w') \<and> spawned w' = nineIdsCalls"
    by (simp add: upt_3 expected_nineIdsCalls)
  from all part show ?thesis by simp
qed

text \<open>
  The claim counts a call that exits with status 0 as a success and any other call as a
  failure. For one valid id it promises the result 1 when the call exits with status 0, and
  the result 0 when the call fails. When the call exits with status 0 without JSON on its
  standard output, \<^verbatim>\<open>JSON.parse(stdout)\<close> throws a SyntaxError; when \<^verbatim>\<open>gcloud\<close> cannot be
  spawned, the status is \<^verbatim>\<open>null\<close> and so is \<^verbatim>\<open>stderr\<close>, and \<^verbatim>\<open>process.stderr.write(stderr)\<close>
  throws a TypeError before the status is tested.
\<close>

theorem deleter_throws_on_status_0_without_json_and_on_spawn_failure:
  "status (gcloud (utcHost noJson) 0) = Some 0 \<and>
   fst (deleteVersions (utcHost noJson) (Options fullOptions) 0 (onlyIds [Str ''a1''])) =
     Inl JSONSyntaxError \<and>
   status (gcloud (utcHost noGcloud) 0) = None \<and>
   fst (deleteVersions (utcHost noGcloud) (Options fullOptions) 0 (onlyIds [Str ''a1''])) =
     Inl WriteOfNull"
proof -
  have a: "0 < length (arrays (onlyIds [Str ''a1'']))" by (simp add: onlyIds_def)
  have g: "\<forall>v\<in>set (arrays (onlyIds [Str ''a1'']) ! 0). \<not> badVersion v"
    by (simp add: onlyIds_def badVersion_def)
  note dv = deleteVersions_valid[OF a g, of _ fullOptions]
  have l: "log_fn fullOptions = Some ConsoleInfo" by (simp add: fullOptions_def)
  have "fst (deleteVersions (utcHost noJson) (Options fullOptions) 0 (onlyIds [Str ''a1''])) =
      Inl JSONSyntaxError"
    unfolding dv l
    by (subst deleteLoop_unparsed)
       (simp_all add: onlyIds_def gcloud_utcHost noJson_def exit_0_no_json_def)
  moreover
  have "fst (deleteVersions (utcHost noGcloud) (Options fullOptions) 0 (onlyIds [Str ''a1''])) =
      Inl WriteOfNull"
    unfolding dv l
    by (subst deleteLoop_not_spawned)
       (simp_all add: onlyIds_def gcloud_utcHost noGcloud_def not_spawned_def)
  ultimately show ?thesis
    by (simp add: gcloud_utcHost noJson_def exit_0_no_json_def noGcloud_def not_spawned_def)
qed

theorem bad_version_rejects_everything_witness:
  "\<exists>bad. deleteVersions (utcHost allSucceed) (Options fullOptions) 0
            (onlyIds [Str ''good'', Str ''-foo'']) =
          (Inl (BadVersion bad), onlyIds [Str ''good'', Str ''-foo''])"
proof -
  have a: "0 < length (arrays (onlyIds [Str ''good'', Str ''-foo'']))"
    by (simp add: onlyIds_def)
  have m: "Str ''-foo'' \<in> set (arrays (onlyIds [Str ''good'', Str ''-foo'']) ! 0)"
    by (simp add: onlyIds_def)
  have b: "(\<forall>t. Str ''-foo'' \<noteq> Str t) \<or> (\<exists>t. Str ''-foo'' = Str (CHR ''-'' # t)) \<or>
           (\<exists>t. Str ''-foo'' = Str t \<and> CHR 0x5C \<in> set t)"
    by simp
  have n: "Options fullOptions \<noteq> Primitive Null" "Options fullOptions \<noteq> Primitive Undefined"
    by simp_all
  from bad_version_rejects_everything[OF a m b n, of "utcHost allSucceed"]
  show ?thesis by blast
qed

theorem callers_array_unchanged_witness:
  "take 1 (arrays (snd (deleteVersions (utcHost thirdFails) (Options fullOptions) 0
      (onlyIds nineIds)))) = [nineIds]"
  using callers_array_unchanged[where w = "onlyIds nineIds" and e = "utcHost thirdFails"
      and options = "Options fullOptions" and versions = 0]
  by (simp add: onlyIds_def)

subsection \<open>purgeOldVersionsFor on the concrete run\<close>

lemma fetchVersions_string:
  "fetchVersions e (Primitive (Str p)) w =
     (if status (gcloud e (length (spawned w))) \<noteq> Some 0
      then (Inl (CouldNotList (status (gcloud e (length (spawned w))))),
            w\<lparr>spawned := spawned w @ [listCall]\<rparr>)
      else (case stdout (gcloud e (length (spawned w))) of
              None \<Rightarrow> (Inl JSONSyntaxError, w\<lparr>spawned := spawned w @ [listCall]\<rparr>)
            | Some j \<Rightarrow> (Inr j, w\<lparr>spawned := spawned w @ [listCall]\<rparr>)))"
  by (simp add: fetchVersions_def destructure_def spawnSync_def listCall_def
      split: option.splits)

lemma fetch_first_answer:
  "answers 0 = listed_ok vs \<Longrightarrow>
   fetchVersions (utcHost answers) (Primitive (Str p)) nothingYet =
     (Inr (JVersions vs),
      \<lparr>arrays = [],
       spawned = [[Str ''app'', Str ''--project'', Undefined, Str ''versions'', Str ''list'',
                   Str ''--service'', Undefined,
                   Str (''--format='' @ [CHR 0x22] @ ''json'' @ [CHR 0x22])]],
       logged = []\<rparr>)"
  by (simp add: fetchVersions_string gcloud_utcHost nothingYet_def listed_ok_def listCall_def)

lemma deleteVersions_no_ids:
  "arrays w = [[]] \<Longrightarrow>
   deleteVersions e (Primitive (Str p)) 0 w = (Inr 0, w\<lparr>arrays := [[], []]\<rparr>)"
  by (simp add: deleteVersions_def destructure_def slice_def deleteLoop_empty)

lemma deleteVersions_string_options:
  "arrays w = [v # vs] \<Longrightarrow> checkVersions (v # vs) = Inr () \<Longrightarrow>
   deleteVersions e (Primitive (Str p)) 0 w =
     (Inl LogIsNotAFunction, w\<lparr>arrays := [v # vs, drop deleteAtMost (v # vs)]\<rparr>)"
  by (simp add: deleteVersions_def destructure_def slice_def deleteLoop_no_log)

subsection \<open>No run gets as far as a delete call\<close>









text \<open>
  Claim C8. A run that does not fail must return the number of versions deleted. Here only
  the project is given, the listing has no candidate under the default policy, nothing is
  deleted and the run does not fail: it should return 0. The body of
  \<^verbatim>\<open>purgeOldVersionsFor\<close> has no \<^verbatim>\<open>return\<close>, and the run yields \<^verbatim>\<open>undefined\<close>.
\<close>

theorem successful_run_returns_undefined:
  "fst (purgeOldVersionsFor (utcHost listed) onlyProject nothingYet) = Inr Undefined"
proof -
  have f: "listed 0 = listed_ok listing"
    by (simp add: listed_def)
  obtain ds k where c:
    "classify (utcHost listed) 1600020000000 ''p'' ''default'' 7 20 listing = (ds, k)"
    by (cases "classify (utcHost listed) 1600020000000 ''p'' ''default'' 7 20 listing")
  with classify_listing_defaults[of listed] have ds: "ds = []" by simp
  show ?thesis
    by (simp add: purgeOldVersionsFor_def Let_def withDefaults_def onlyProject_def
        fetch_first_answer[of listed listing, OF f] listedVersions_def clock_utcHost
        keepDailyAmountDefault_def keepMinimumDefault_def c ds alloc_def deleteVersions_no_ids
        afterDeleting_def)
qed

text \<open>
  Claim C9. The run must list the versions of the configured project and service and hand
  the candidates to the deleter with the same project, service and log sink. Here the
  options name project \<^verbatim>\<open>p\<close>, service \<^verbatim>\<open>api\<close> and a log sink of the caller. The code passes
  the string \<^verbatim>\<open>project\<close> as the \<^verbatim>\<open>options\<close> of \<^verbatim>\<open>fetchVersions\<close> and of \<^verbatim>\<open>deleteVersions\<close>:
  the listing is requested for project \<^verbatim>\<open>undefined\<close> and service \<^verbatim>\<open>undefined\<close>, and the
  deleter, whose \<^verbatim>\<open>log\<close> is \<^verbatim>\<open>undefined\<close>, throws a TypeError before any delete call; the only
  line logged is the classifier's.
\<close>

theorem fetch_and_delete_get_the_project_string:
  "purgeOldVersionsFor (utcHost listed) apiOptions nothingYet =
     (Inl LogIsNotAFunction,
      \<lparr>arrays = [[Str ''api1''], []],
       spawned = [[Str ''app'', Str ''--project'', Undefined, Str ''versions'', Str ''list'',
                   Str ''--service'', Undefined,
                   Str (''--format='' @ [CHR 0x22] @ ''json'' @ [CHR 0x22])]],
       logged = [(UserLog ''audit'', Deleting ''api1'' 10800000)]\<rparr>)"
proof -
  have f: "listed 0 = listed_ok listing"
    by (simp add: listed_def)
  have ids: "checkVersions [Str ''api1''] = Inr ()"
    by (simp add: badVersion_def)
  show ?thesis
    by (simp add: purgeOldVersionsFor_def Let_def withDefaults_def apiOptions_def
        fetch_first_answer[of listed listing, OF f] listedVersions_def clock_utcHost
        classify_listing_api alloc_def cand_def deleteVersions_string_options[OF _ ids]
        deleteAtMost_def afterDeleting_def)
qed

end
